theory Spec2Isabelle
  imports Complex_Main
begin

chapter \<open>The program\<close>

section \<open>Strings\<close>

text \<open>
  A JavaScript string is a sequence of UTF-16 code units. The regular expressions of the
  parser carry no \<open>u\<close> flag, so they work on code units too; a code unit is modelled by
  its number. Every statement below holds for all lists of numbers, so in particular for
  those whose members are below \<open>0x10000\<close>.
\<close>

type_synonym jschar = nat
type_synonym jsstring = "jschar list"

text \<open>An ASCII literal, written as an Isabelle string, as the code units it stands for.\<close>

definition ascii :: "string \<Rightarrow> jsstring" where
  "ascii s = map of_char s"

text \<open>
  The class \<open>\s\<close> of a JavaScript regular expression, which is also what
  \<open>String.prototype.trim\<close> strips: WhiteSpace and LineTerminator of ECMAScript.
\<close>

definition is_space :: "jschar \<Rightarrow> bool" where
  "is_space c =
     (c = 0x09 \<or> c = 0x0A \<or> c = 0x0B \<or> c = 0x0C \<or> c = 0x0D \<or> c = 0x20 \<or>
      c = 0xA0 \<or> c = 0x1680 \<or> (0x2000 \<le> c \<and> c \<le> 0x200A) \<or>
      c = 0x2028 \<or> c = 0x2029 \<or> c = 0x202F \<or> c = 0x205F \<or> c = 0x3000 \<or>
      c = 0xFEFF)"

text \<open>The class \<open>\d\<close>: the ASCII digits only.\<close>

definition is_digit :: "jschar \<Rightarrow> bool" where
  "is_digit c = (0x30 \<le> c \<and> c \<le> 0x39)"

section \<open>Header normalisation\<close>

text \<open>
  \<open>toHalfWidth\<close> replaces every match of the class from \<open>U+FF01\<close> to \<open>U+FF5E\<close> by
  \<^verbatim>\<open>String.fromCharCode(char.charCodeAt(0) - 0xfee0)\<close>; \<open>half_char\<close> is what happens
  to one code unit.
\<close>

definition half_char :: "jschar \<Rightarrow> jschar" where
  "half_char c = (if 0xFF01 \<le> c \<and> c \<le> 0xFF5E then c - 0xFEE0 else c)"

definition toHalfWidth :: "jsstring \<Rightarrow> jsstring" where
  "toHalfWidth v = map half_char v"

text \<open>
  The third step of \<open>normalizeKey\<close> on one code unit: a member of the class of the two
  ASCII parentheses (\<open>0x28\<close>, \<open>0x29\<close>) and the two full-width ones (\<open>0xFF08\<close>,
  \<open>0xFF09\<close>) is replaced by the callback, which returns \<open>(\<close> for the full-width opening
  parenthesis and \<open>)\<close> for everything else.
\<close>

definition paren_char :: "jschar \<Rightarrow> jschar" where
  "paren_char c =
     (if c = 0x28 \<or> c = 0x29 \<or> c = 0xFF08 \<or> c = 0xFF09
      then (if c = 0xFF08 then 0x28 else 0x29) else c)"

text \<open>The last step on one code unit: the full-width colon \<open>U+FF1A\<close> becomes \<open>:\<close>.\<close>

definition colon_char :: "jschar \<Rightarrow> jschar" where
  "colon_char c = (if c = 0xFF1A then 0x3A else c)"

text \<open>
  \<open>normalizeKey\<close>: \<open>toHalfWidth\<close>, then every run of white space removed, then the
  parenthesis callback, then the middle dot \<open>U+30FB\<close> removed, then the ideographic space
  \<open>U+3000\<close> removed, then the colon unified.
\<close>

definition normalizeKey :: "jsstring \<Rightarrow> jsstring" where
  "normalizeKey key =
     (let s1 = toHalfWidth key;
          s2 = filter (\<lambda>c. \<not> is_space c) s1;
          s3 = map paren_char s2;
          s4 = filter (\<lambda>c. c \<noteq> 0x30FB) s3;
          s5 = filter (\<lambda>c. c \<noteq> 0x3000) s4
      in map colon_char s5)"

section \<open>Cleaning and coercing values\<close>

text \<open>
  \<open>String.prototype.trim\<close> removes white space and line terminators from both ends.
\<close>

definition trim :: "jsstring \<Rightarrow> jsstring" where
  "trim s = rev (dropWhile is_space (rev (dropWhile is_space s)))"

text \<open>
  The set \<open>NIL_VALUES\<close>: the empty string, the horizontal bar \<open>U+2015\<close> (listed twice in
  the source), the half-width prolonged sound mark \<open>U+FF70\<close>, the ASCII hyphen, the
  prolonged sound mark \<open>U+30FC\<close>, the full-width hyphen \<open>U+FF0D\<close>, and the two spellings
  of "none".
\<close>

definition NIL_VALUES :: "jsstring set" where
  "NIL_VALUES =
     set [[], [0x2015], [0xFF70], ascii ''-'', [0x30FC], [0x2015], [0xFF0D],
          [0x7121, 0x3057], [0x306A, 0x3057]]"

text \<open>
  A cell of a parsed row is of type \<open>unknown\<close> for \<open>cleanValue\<close>: a string, or anything
  else (the parser stores surplus fields of a line as an array).
\<close>

datatype rawval = Str jsstring | NotStr

definition cleanValue :: "rawval \<Rightarrow> jsstring option" where
  "cleanValue v =
     (case v of
        NotStr \<Rightarrow> None
      | Str s \<Rightarrow>
          let trimmed = trim s in
          if trimmed \<in> NIL_VALUES then None else Some trimmed)"

text \<open>
  A JavaScript number: a finite value, \<open>NaN\<close> or one of the two infinities. A finite
  value is modelled by the real number it stands for. \<open>Number_js\<close> below keeps the exact
  value of a decimal literal; the arithmetic operators, further down, round their results
  to the nearest double.
\<close>

datatype number = Num real | NaN | PosInfinity | NegInfinity

definition isFinite :: "number \<Rightarrow> bool" where
  "isFinite n = (case n of Num _ \<Rightarrow> True | _ \<Rightarrow> False)"

text \<open>
  The decimal values whose nearest double is still finite are those of magnitude below
  \<open>2 ^ 1024 - 2 ^ 970\<close>; from there on \<open>Number\<close> returns an infinity.
\<close>

definition double_limit :: real where
  "double_limit = 2 ^ 1024 - 2 ^ 970"

definition digits_value :: "jsstring \<Rightarrow> nat" where
  "digits_value ds = foldl (\<lambda>n c. 10 * n + (c - 0x30)) 0 ds"

text \<open>
  \<open>StrUnsignedDecimalLiteral\<close> of ECMAScript on the characters that the sanitiser of
  \<open>parseNumber\<close> leaves (digits, \<open>.\<close>, \<open>+\<close>, \<open>-\<close>): digits with an optional point and
  optional further digits, or a point followed by digits. \<open>None\<close> is a string that is
  not a numeric literal.
\<close>

definition unsigned_decimal :: "jsstring \<Rightarrow> real option" where
  "unsigned_decimal s =
     (let ip = takeWhile is_digit s in
      case dropWhile is_digit s of
        [] \<Rightarrow> if ip = [] then None else Some (real (digits_value ip))
      | c # fp \<Rightarrow>
          if c = 0x2E \<and> list_all is_digit fp \<and> (ip \<noteq> [] \<or> fp \<noteq> [])
          then Some (real (digits_value ip) + real (digits_value fp) / 10 ^ length fp)
          else None)"

text \<open>
  \<open>Number(s)\<close> for a string \<open>s\<close> of digits, points and signs: the empty string is \<open>0\<close>;
  otherwise an optional sign and an unsigned decimal literal, \<open>NaN\<close> when \<open>s\<close> is not of
  that form, an infinity when the value is too large for a double.
\<close>

definition Number_js :: "jsstring \<Rightarrow> number" where
  "Number_js s =
     (case s of
        [] \<Rightarrow> Num 0
      | c # r \<Rightarrow>
          let negative = (c = 0x2D);
              body = (if c = 0x2B \<or> c = 0x2D then r else s)
          in case unsigned_decimal body of
               None \<Rightarrow> NaN
             | Some v \<Rightarrow>
                 if v < double_limit then Num (if negative then - v else v)
                 else if negative then NegInfinity else PosInfinity)"

text \<open>
  \<^verbatim>\<open>if (!value) return undefined;
  const sanitized = value.replace(/[^\d.+-]/g, '');
  if (!sanitized) return undefined;
  const parsed = Number(sanitized);
  return Number.isFinite(parsed) ? parsed : undefined;\<close>
\<close>

definition parseNumber :: "jsstring option \<Rightarrow> number option" where
  "parseNumber v =
     (case v of
        None \<Rightarrow> None
      | Some value \<Rightarrow>
          if value = [] then None
          else
            let sanitized =
                  filter (\<lambda>c. is_digit c \<or> c = 0x2E \<or> c = 0x2B \<or> c = 0x2D) value
            in if sanitized = [] then None
               else
                 let parsed = Number_js sanitized
                 in if isFinite parsed then Some parsed else None)"

text \<open>\<open>padStart\<close> with a filler of one character.\<close>

definition padStart :: "nat \<Rightarrow> jschar \<Rightarrow> jsstring \<Rightarrow> jsstring" where
  "padStart n f s = replicate (n - length s) f @ s"

text \<open>
  The pattern of \<open>normalizeTime\<close>: one or two digits, then optionally a colon (ASCII or
  the full-width \<open>U+FF1A\<close>), then optionally two digits. \<open>match_at\<close> is an attempt to match
  at the beginning of \<open>s\<close>, returning the two capture groups. Every quantifier is greedy
  and everything after the first group is optional, so the attempt never backtracks: it
  fails only when \<open>s\<close> does not begin with a digit.
\<close>

definition match_at :: "jsstring \<Rightarrow> (jsstring \<times> jsstring option) option" where
  "match_at s =
     (let hour = take 2 (takeWhile is_digit s) in
      if hour = [] then None
      else
        let r1 = drop (length hour) s;
            r2 = (case r1 of
                    [] \<Rightarrow> r1
                  | c # r \<Rightarrow> if c = 0x3A \<or> c = 0xFF1A then r else r1);
            minute = (case r2 of
                        d1 # d2 # _ \<Rightarrow>
                          if is_digit d1 \<and> is_digit d2 then Some [d1, d2] else None
                      | _ \<Rightarrow> None)
        in Some (hour, minute))"

text \<open>
  \<open>value.match(pattern)\<close> without the global flag: the leftmost position at which the
  pattern matches.
\<close>

fun time_match :: "jsstring \<Rightarrow> (jsstring \<times> jsstring option) option" where
  "time_match [] = None"
| "time_match (c # cs) =
     (case match_at (c # cs) of Some g \<Rightarrow> Some g | None \<Rightarrow> time_match cs)"

definition normalizeTime :: "jsstring option \<Rightarrow> jsstring option" where
  "normalizeTime v =
     (case v of
        None \<Rightarrow> None
      | Some value \<Rightarrow>
          if value = [] then None
          else
            (case time_match value of
               None \<Rightarrow> None
             | Some (g1, g2) \<Rightarrow>
                 let hour = padStart 2 0x30 g1;
                     minute = (case g2 of None \<Rightarrow> ascii ''00'' | Some m \<Rightarrow> m)
                 in Some (hour @ [0x3A] @ minute)))"

section \<open>Resolving fields\<close>

text \<open>\<open>String.prototype.includes\<close>: \<open>sub\<close> occurs in \<open>s\<close> as a contiguous run.\<close>

fun str_includes :: "jsstring \<Rightarrow> jsstring \<Rightarrow> bool" where
  "str_includes [] sub = (sub = [])"
| "str_includes (c # cs) sub = (take (length sub) (c # cs) = sub \<or> str_includes cs sub)"

definition keyHasAll :: "jsstring \<Rightarrow> jsstring list \<Rightarrow> bool" where
  "keyHasAll key needles = list_all (\<lambda>needle. str_includes key needle) needles"

text \<open>
  \<open>toLowerCase\<close> is used only to look for the ASCII words \<open>start\<close> and \<open>end\<close>. The only
  characters that it turns into one of their letters are the ASCII capitals, so the ASCII
  part of the mapping is all that the search can see.
\<close>

definition lower_ascii :: "jsstring \<Rightarrow> jsstring" where
  "lower_ascii s = map (\<lambda>c. if 0x41 \<le> c \<and> c \<le> 0x5A then c + 0x20 else c) s"

datatype needle = Start | End

text \<open>
  The markers of an opening column are \<open>U+958B U+59CB\<close> and \<open>start\<close>; those of a closing
  column are \<open>U+7D42 U+4E86\<close>, \<open>U+9589\<close> and \<open>end\<close>.
\<close>

definition findByMatchers ::
  "jsstring list \<Rightarrow> jsstring list \<Rightarrow> needle \<Rightarrow> jsstring option" where
  "findByMatchers keys matchers needle =
     find (\<lambda>key.
        list_ex (\<lambda>matcher.
           keyHasAll key [matcher] \<and>
           (case needle of
              Start \<Rightarrow>
                str_includes key [0x958B, 0x59CB] \<or> str_includes (lower_ascii key) (ascii ''start'')
            | End \<Rightarrow>
                str_includes key [0x7D42, 0x4E86] \<or> str_includes key [0x9589] \<or>
                str_includes (lower_ascii key) (ascii ''end'')))
          matchers)
       keys"

text \<open>
  A normalised row is the object built by \<open>Object.fromEntries\<close>: an association list
  holding each key once, at the place of its first entry and with the value of its last
  one. (JavaScript lists keys that are canonical array indices before all others; such a
  key consists of digits only, is never a candidate label and never contains a weekday
  matcher, so its place plays no role below.)
\<close>

type_synonym row = "(jsstring \<times> jsstring option) list"

fun set_property :: "jsstring \<Rightarrow> jsstring option \<Rightarrow> row \<Rightarrow> row" where
  "set_property k v [] = [(k, v)]"
| "set_property k v (p # ps) =
     (if fst p = k then (k, v) # ps else p # set_property k v ps)"

definition fromEntries :: "(jsstring \<times> jsstring option) list \<Rightarrow> row" where
  "fromEntries entries = foldl (\<lambda>obj (k, v). set_property k v obj) [] entries"

text \<open>
  \<open>row[key]\<close>: \<open>None\<close> is \<open>undefined\<close>, for a missing key as for a value cleaned away.
  (The keys looked up are the candidate labels and the keys of the row itself, none of
  which is a property that an object inherits.)
\<close>

definition get_property :: "row \<Rightarrow> jsstring \<Rightarrow> jsstring option" where
  "get_property r key = (case map_of r key of None \<Rightarrow> None | Some v \<Rightarrow> v)"

text \<open>
  \<^verbatim>\<open>for (const candidate of candidates) {
    const normalized = normalizeKey(candidate);
    if (row[normalized]) return row[normalized];
  }
  return undefined;\<close>
  A string is truthy when it is not empty.
\<close>

fun pickFirst :: "row \<Rightarrow> jsstring list \<Rightarrow> jsstring option" where
  "pickFirst r [] = None"
| "pickFirst r (candidate # candidates) =
     (let normalized = normalizeKey candidate in
      case get_property r normalized of
        None \<Rightarrow> pickFirst r candidates
      | Some v \<Rightarrow> if v \<noteq> [] then Some v else pickFirst r candidates)"

text \<open>The candidate labels of each field, in the order of the source.\<close>

definition id_labels :: "jsstring list" where
  "id_labels =
     [ascii ''ID'',
      [0xFF29, 0xFF24],
      ascii ''Id'']"

definition municipalityName_labels :: "jsstring list" where
  "municipalityName_labels =
     [[0x5730, 0x65B9, 0x516C, 0x5171, 0x56E3, 0x4F53, 0x540D],
      [0x5E02, 0x533A, 0x753A, 0x6751, 0x540D],
      [0x5730, 0x65B9, 0x81EA, 0x6CBB, 0x4F53, 0x540D],
      [0x81EA, 0x6CBB, 0x4F53, 0x540D]]"

definition name_labels :: "jsstring list" where
  "name_labels =
     [[0x6307, 0x5B9A, 0x6691, 0x71B1, 0x907F, 0x96E3, 0x65BD, 0x8A2D, 0x306E, 0x540D, 0x79F0],
      [0x65BD, 0x8A2D, 0x540D],
      [0x540D, 0x79F0],
      [0x907F, 0x96E3, 0x65BD, 0x8A2D, 0x540D]]"

definition address_labels :: "jsstring list" where
  "address_labels =
     [[0x6240, 0x5728, 0x5730],
      [0x4F4F, 0x6240],
      [0x6240, 0x5728, 0x5730, 0x4F4F, 0x6240],
      [0x6240, 0x5728, 0x5730, 0x7B49]]"

definition latitude_labels :: "jsstring list" where
  "latitude_labels =
     [[0x7DEF, 0x5EA6],
      ascii ''Latitude'']"

definition longitude_labels :: "jsstring list" where
  "longitude_labels =
     [[0x7D4C, 0x5EA6],
      ascii ''Longitude'']"

definition municipalityCode_labels :: "jsstring list" where
  "municipalityCode_labels =
     [[0x5E02, 0x533A, 0x753A, 0x6751, 0x30B3, 0x30FC, 0x30C9],
      [0x81EA, 0x6CBB, 0x4F53, 0x30B3, 0x30FC, 0x30C9],
      [0x5730, 0x65B9, 0x516C, 0x5171, 0x56E3, 0x4F53, 0x30B3, 0x30FC, 0x30C9],
      [0x5168, 0x56FD, 0x5730, 0x65B9, 0x516C, 0x5171, 0x56E3, 0x4F53, 0x30B3, 0x30FC, 0x30C9]]"

definition specialNotes_labels :: "jsstring list" where
  "specialNotes_labels =
     [[0x6307, 0x5B9A, 0x6691, 0x71B1, 0x907F, 0x96E3, 0x65BD, 0x8A2D, 0x3092, 0x958B,
       0x653E, 0x3059, 0x308B, 0x3053, 0x3068, 0x304C, 0x3067, 0x304D, 0x308B, 0x65E5,
       0x53CA, 0x3073, 0x6642, 0x9593, 0x5E2F, 0x7279, 0x8A18, 0x4E8B, 0x9805],
      [0x7279, 0x8A18, 0x4E8B, 0x9805],
      [0x958B, 0x653E, 0x7279, 0x8A18, 0x4E8B, 0x9805]]"

definition capacity_labels :: "jsstring list" where
  "capacity_labels =
     [[0x6307, 0x5B9A, 0x6691, 0x71B1, 0x907F, 0x96E3, 0x65BD, 0x8A2D, 0x306E, 0x958B,
       0x653E, 0x306B, 0x3088, 0x308A, 0x53D7, 0x3051, 0x5165, 0x308C, 0x308B, 0x3053,
       0x3068, 0x304C, 0x53EF, 0x80FD, 0x3067, 0x3042, 0x308B, 0x3068, 0x898B, 0x8FBC,
       0x307E, 0x308C, 0x308B, 0x4EBA, 0x6570],
      [0x53D7, 0x5165, 0x53EF, 0x80FD, 0x4EBA, 0x6570],
      [0x53CE, 0x5BB9, 0x53EF, 0x80FD, 0x4EBA, 0x6570]]"

definition manager_labels :: "jsstring list" where
  "manager_labels =
     [[0x65BD, 0x8A2D, 0x7BA1, 0x7406, 0x8005, 0x540D],
      [0x7BA1, 0x7406, 0x8005, 0x540D],
      [0x7BA1, 0x7406, 0x8005]]"

definition email_labels :: "jsstring list" where
  "email_labels =
     [[0x9023, 0x7D61, 0x5148, 0x30E1, 0x30FC, 0x30EB, 0x30A2, 0x30C9, 0x30EC, 0x30B9],
      [0x30E1, 0x30FC, 0x30EB, 0x30A2, 0x30C9, 0x30EC, 0x30B9],
      [0x9023, 0x7D61, 0x5148, 0x004D, 0x0061, 0x0069, 0x006C]]"

definition phone_labels :: "jsstring list" where
  "phone_labels =
     [[0x96FB, 0x8A71, 0x756A, 0x53F7],
      [0x9023, 0x7D61, 0x5148, 0x96FB, 0x8A71, 0x756A, 0x53F7],
      ascii ''TEL'']"

definition url_labels :: "jsstring list" where
  "url_labels =
     [ascii ''URL'',
      [0xFF35, 0xFF32, 0xFF2C],
      [0x30DB, 0x30FC, 0x30E0, 0x30DA, 0x30FC, 0x30B8]]"

definition designationDate_labels :: "jsstring list" where
  "designationDate_labels =
     [[0x6307, 0x5B9A, 0x65E5],
      [0x6307, 0x5B9A, 0x5E74, 0x6708, 0x65E5]]"

definition facilityOwnership_labels :: "jsstring list" where
  "facilityOwnership_labels =
     [[0x516C, 0x5171, 0x65BD, 0x8A2D],
      [0x65BD, 0x8A2D, 0x533A, 0x5206],
      [0x65BD, 0x8A2D, 0x5206, 0x985E]]"

definition facilityTypeCategory_labels :: "jsstring list" where
  "facilityTypeCategory_labels =
     [[0x65BD, 0x8A2D, 0x306E, 0x7A2E, 0x985E],
      [0x65BD, 0x8A2D, 0x306E, 0x7A2E, 0x985E, 0x3000],
      [0x65BD, 0x8A2D, 0x7A2E, 0x985E],
      [0x65BD, 0x8A2D, 0x5206, 0x985E, 0x8A73, 0x7D30]]"

section \<open>Assembling records\<close>

record GeoPoint =
  latitude :: real
  longitude :: real

record DailyWindow =
  dayLabel :: jsstring
  open_time :: "jsstring option"
  close_time :: "jsstring option"

text \<open>
  A shelter carries a latitude and a longitude of its own, so the record extends
  \<open>GeoPoint\<close>. The field \<open>id\<close> of the source is \<open>shelter_id\<close> here; \<open>open\<close> and \<open>close\<close> of a
  daily window are \<open>open_time\<close> and \<open>close_time\<close>. The capacity is \<open>capacity ?? null\<close>:
  \<open>None\<close> is \<open>null\<close>.
\<close>

record CoolingShelter = GeoPoint +
  shelter_id :: jsstring
  municipalityCode :: "jsstring option"
  municipalityName :: jsstring
  name :: jsstring
  address :: jsstring
  openings :: "DailyWindow list"
  specialNotes :: "jsstring option"
  capacity :: "number option"
  manager :: "jsstring option"
  email :: "jsstring option"
  phone :: "jsstring option"
  url :: "jsstring option"
  designationDate :: "jsstring option"
  facilityTypeCategory :: "jsstring option"
  facilityOwnership :: "jsstring option"

text \<open>\<open>DAY_CONFIG\<close>: the label of each weekday (Sunday first) and its matchers.\<close>

definition DAY_CONFIG :: "(jsstring \<times> jsstring list) list" where
  "DAY_CONFIG =
     [([0x65E5], [[0x65E5, 0x66DC], [0x65E5, 0x66DC, 0x65E5], ascii ''Sun'', ascii ''SUN'']),
      ([0x6708], [[0x6708, 0x66DC], [0x6708, 0x66DC, 0x65E5], ascii ''Mon'', ascii ''MON'']),
      ([0x706B], [[0x706B, 0x66DC], [0x706B, 0x66DC, 0x65E5], ascii ''Tue'', ascii ''TUE'']),
      ([0x6C34], [[0x6C34, 0x66DC], [0x6C34, 0x66DC, 0x65E5], ascii ''Wed'', ascii ''WED'']),
      ([0x6728], [[0x6728, 0x66DC], [0x6728, 0x66DC, 0x65E5], ascii ''Thu'', ascii ''THU'']),
      ([0x91D1], [[0x91D1, 0x66DC], [0x91D1, 0x66DC, 0x65E5], ascii ''Fri'', ascii ''FRI'']),
      ([0x571F], [[0x571F, 0x66DC], [0x571F, 0x66DC, 0x65E5], ascii ''Sat'', ascii ''SAT''])]"

definition dailyWindow :: "row \<Rightarrow> jsstring \<times> jsstring list \<Rightarrow> DailyWindow" where
  "dailyWindow r day =
     (let keys = map fst r;
          startKey = findByMatchers keys (snd day) Start;
          endKey = findByMatchers keys (snd day) End
      in \<lparr> dayLabel = fst day,
           open_time =
             normalizeTime (case startKey of None \<Rightarrow> None | Some k \<Rightarrow> get_property r k),
           close_time =
             normalizeTime (case endKey of None \<Rightarrow> None | Some k \<Rightarrow> get_property r k) \<rparr>)"

text \<open>The four mandatory fields of a row, as the loop body resolves them.\<close>

definition row_id :: "row \<Rightarrow> jsstring option" where
  "row_id r = pickFirst r id_labels"

definition row_name :: "row \<Rightarrow> jsstring option" where
  "row_name r = pickFirst r name_labels"

definition row_latitude :: "row \<Rightarrow> number option" where
  "row_latitude r = parseNumber (pickFirst r latitude_labels)"

definition row_longitude :: "row \<Rightarrow> number option" where
  "row_longitude r = parseNumber (pickFirst r longitude_labels)"

definition row_capacity :: "row \<Rightarrow> number option" where
  "row_capacity r = parseNumber (pickFirst r capacity_labels)"

text \<open>The finite value of a number that \<open>parseNumber\<close> returned.\<close>

definition finite_value :: "number \<Rightarrow> real" where
  "finite_value n = (case n of Num x \<Rightarrow> x | _ \<Rightarrow> 0)"

text \<open>
  The body of the loop over the rows, once the row is normalised: \<open>None\<close> is
  \<open>continue\<close>, \<open>Some\<close> is the record pushed. The name of a row without one is the empty
  string (\<open>?? ''\<close>), which the test \<open>!name\<close> rejects like a missing identifier.
\<close>

definition assemble :: "row \<Rightarrow> CoolingShelter option" where
  "assemble r =
     (let id_opt = row_id r;
          municipalityName' =
            (case pickFirst r municipalityName_labels of None \<Rightarrow> [] | Some v \<Rightarrow> v);
          name' = (case row_name r of None \<Rightarrow> [] | Some v \<Rightarrow> v);
          address' = (case pickFirst r address_labels of None \<Rightarrow> [] | Some v \<Rightarrow> v);
          latitude' = row_latitude r;
          longitude' = row_longitude r
      in case (id_opt, latitude', longitude') of
           (Some id', Some lat, Some lon) \<Rightarrow>
             if id' = [] \<or> name' = [] then None
             else Some
               \<lparr> latitude = finite_value lat,
                 longitude = finite_value lon,
                 shelter_id = id',
                 municipalityCode = pickFirst r municipalityCode_labels,
                 municipalityName =
                   (if municipalityName' \<noteq> [] then municipalityName'
                    else [0x57FC, 0x7389, 0x770C]),
                 name = name',
                 address = address',
                 openings = map (dailyWindow r) DAY_CONFIG,
                 specialNotes = pickFirst r specialNotes_labels,
                 capacity = row_capacity r,
                 manager = pickFirst r manager_labels,
                 email = pickFirst r email_labels,
                 phone = pickFirst r phone_labels,
                 url = pickFirst r url_labels,
                 designationDate = pickFirst r designationDate_labels,
                 facilityTypeCategory = pickFirst r facilityTypeCategory_labels,
                 facilityOwnership = pickFirst r facilityOwnership_labels \<rparr>
         | _ \<Rightarrow> None)"

text \<open>
  A parsed row is the list of its entries (\<open>Object.entries\<close>), or \<open>None\<close> for a row that
  is \<open>null\<close> or \<open>undefined\<close>, which the loop skips as it skips a row without keys.
\<close>

type_synonym rawrow = "(jsstring \<times> rawval) list"

definition normalizeRow :: "rawrow \<Rightarrow> row" where
  "normalizeRow rawRow =
     fromEntries (map (\<lambda>(rawKey, rawValue). (normalizeKey rawKey, cleanValue rawValue)) rawRow)"

definition parseRow :: "rawrow option \<Rightarrow> CoolingShelter option" where
  "parseRow rawRow =
     (case rawRow of
        None \<Rightarrow> None
      | Some raw \<Rightarrow>
          let r = normalizeRow raw in
          if length (map fst r) = 0 then None else assemble r)"

text \<open>
  \<open>parseCoolingShelterCsv\<close>, from the rows that the delimited-text parser returned
  (\<open>parsed.data\<close>; its warnings are only logged): the loop pushes a record for each row
  that is not skipped.
\<close>

fun parse_loop :: "CoolingShelter list \<Rightarrow> rawrow option list \<Rightarrow> CoolingShelter list" where
  "parse_loop shelters [] = shelters"
| "parse_loop shelters (rawRow # rest) =
     (case parseRow rawRow of
        None \<Rightarrow> parse_loop shelters rest
      | Some shelter \<Rightarrow> parse_loop (shelters @ [shelter]) rest)"

definition parseCoolingShelterCsv :: "rawrow option list \<Rightarrow> CoolingShelter list" where
  "parseCoolingShelterCsv data = parse_loop [] data"

section \<open>Arithmetic on numbers\<close>

text \<open>
  The result of an arithmetic operation is the double nearest to the exact result, a tie
  going to the double whose last bit is zero (IEEE 754 binary64, round to nearest, ties
  to even). \<open>round_even\<close> is that rounding to an integer; \<open>fl x\<close> scales \<open>x\<close> by the unit
  in the last place of its binade (that of the least normal exponent \<open>-1022\<close> for the
  subnormal numbers), rounds, and overflows to an infinity from \<open>2 ^ 1024\<close> on.
\<close>

definition round_even :: "real \<Rightarrow> int" where
  "round_even r =
     (let f = \<lfloor>r\<rfloor>; d = r - of_int f in
      if d < 1 / 2 then f
      else if 1 / 2 < d then f + 1
      else if even f then f else f + 1)"

definition fl :: "real \<Rightarrow> number" where
  "fl x =
     (if x = 0 then Num 0
      else
        let k = max \<lfloor>log 2 \<bar>x\<bar>\<rfloor> (- 1022) - 52;
            r = of_int (round_even (x / 2 powi k)) * 2 powi k
        in if 2 ^ 1024 \<le> \<bar>r\<bar> then (if 0 < x then PosInfinity else NegInfinity)
           else Num r)"

text \<open>
  The four operators on numbers. \<open>NaN\<close> is passed on; the infinities follow IEEE 754.
  The sign of zero is not modelled: every zero is the positive one. (The two zeros
  compare equal and print alike; they differ as a divisor, and the program divides by
  the constants 180, 2, 60 and the speed of a travel mode only.)
\<close>

definition negative :: "number \<Rightarrow> bool" where
  "negative n = (case n of Num x \<Rightarrow> x < 0 | NegInfinity \<Rightarrow> True | _ \<Rightarrow> False)"

definition infinity :: "bool \<Rightarrow> number" where
  "infinity neg = (if neg then NegInfinity else PosInfinity)"

fun js_plus :: "number \<Rightarrow> number \<Rightarrow> number" where
  "js_plus (Num x) (Num y) = fl (x + y)"
| "js_plus NaN _ = NaN"
| "js_plus _ NaN = NaN"
| "js_plus PosInfinity NegInfinity = NaN"
| "js_plus NegInfinity PosInfinity = NaN"
| "js_plus PosInfinity _ = PosInfinity"
| "js_plus NegInfinity _ = NegInfinity"
| "js_plus _ PosInfinity = PosInfinity"
| "js_plus _ NegInfinity = NegInfinity"

fun js_negate :: "number \<Rightarrow> number" where
  "js_negate (Num x) = Num (- x)"
| "js_negate NaN = NaN"
| "js_negate PosInfinity = NegInfinity"
| "js_negate NegInfinity = PosInfinity"

definition js_minus :: "number \<Rightarrow> number \<Rightarrow> number" where
  "js_minus a b = js_plus a (js_negate b)"

fun js_times :: "number \<Rightarrow> number \<Rightarrow> number" where
  "js_times (Num x) (Num y) = fl (x * y)"
| "js_times NaN _ = NaN"
| "js_times _ NaN = NaN"
| "js_times a b =
     (if a = Num 0 \<or> b = Num 0 then NaN else infinity (negative a \<noteq> negative b))"

fun js_divide :: "number \<Rightarrow> number \<Rightarrow> number" where
  "js_divide (Num x) (Num y) =
     (if y = 0 then (if x = 0 then NaN else infinity (x < 0)) else fl (x / y))"
| "js_divide NaN _ = NaN"
| "js_divide _ NaN = NaN"
| "js_divide (Num x) _ = Num 0"
| "js_divide a (Num y) = infinity (negative a \<noteq> (y < 0))"
| "js_divide _ _ = NaN"

text \<open>The comparison \<open><\<close> of two numbers: false as soon as one of them is \<open>NaN\<close>.\<close>

fun js_less :: "number \<Rightarrow> number \<Rightarrow> bool" where
  "js_less (Num x) (Num y) = (x < y)"
| "js_less (Num x) PosInfinity = True"
| "js_less NegInfinity (Num y) = True"
| "js_less NegInfinity PosInfinity = True"
| "js_less _ _ = False"

text \<open>
  \<open>Math.round\<close> (the nearest integer, a half going up) and \<open>Math.floor\<close> are exact, and so
  is the remainder \<open>%\<close>, which takes the sign of the dividend.
\<close>

fun Math_round :: "number \<Rightarrow> number" where
  "Math_round (Num x) = Num (of_int \<lfloor>x + 1 / 2\<rfloor>)"
| "Math_round n = n"

fun Math_floor :: "number \<Rightarrow> number" where
  "Math_floor (Num x) = Num (of_int \<lfloor>x\<rfloor>)"
| "Math_floor n = n"

fun js_remainder :: "number \<Rightarrow> number \<Rightarrow> number" where
  "js_remainder (Num x) (Num y) =
     (if y = 0 then NaN
      else Num (x - y * of_int (if 0 \<le> x / y then \<lfloor>x / y\<rfloor> else \<lceil>x / y\<rceil>)))"
| "js_remainder (Num x) PosInfinity = Num x"
| "js_remainder (Num x) NegInfinity = Num x"
| "js_remainder _ _ = NaN"

text \<open>
  \<open>Math.sqrt\<close> is the correctly rounded square root, \<open>NaN\<close> below zero.
\<close>

fun Math_sqrt :: "number \<Rightarrow> number" where
  "Math_sqrt (Num x) = (if x < 0 then NaN else fl (sqrt x))"
| "Math_sqrt PosInfinity = PosInfinity"
| "Math_sqrt _ = NaN"

text \<open>
  ECMAScript leaves the values of \<open>Math.sin\<close>, \<open>Math.cos\<close> and \<open>Math.atan2\<close> to the
  implementation (they are approximations of the mathematical functions, and engines
  differ in the last bit). They are parameters: a library gives their value at every
  argument that is not \<open>NaN\<close>; at \<open>NaN\<close> the result is \<open>NaN\<close>.
\<close>

record libm =
  lib_sin :: "number \<Rightarrow> number"
  lib_cos :: "number \<Rightarrow> number"
  lib_atan2 :: "number \<Rightarrow> number \<Rightarrow> number"

definition Math_sin :: "libm \<Rightarrow> number \<Rightarrow> number" where
  "Math_sin m x = (if x = NaN then NaN else lib_sin m x)"

definition Math_cos :: "libm \<Rightarrow> number \<Rightarrow> number" where
  "Math_cos m x = (if x = NaN then NaN else lib_cos m x)"

definition Math_atan2 :: "libm \<Rightarrow> number \<Rightarrow> number \<Rightarrow> number" where
  "Math_atan2 m y x = (if y = NaN \<or> x = NaN then NaN else lib_atan2 m y x)"

text \<open>\<open>Math.PI\<close>, the double nearest to \<open>\<pi>\<close>.\<close>

definition Math_PI :: number where
  "Math_PI = Num (884279719003555 / 281474976710656)"

section \<open>Distances and durations\<close>

definition EARTH_RADIUS_METERS :: number where
  "EARTH_RADIUS_METERS = Num 6371000"

definition toRadians :: "number \<Rightarrow> number" where
  "toRadians degrees = js_divide (js_times degrees Math_PI) (Num 180)"

text \<open>
  \<open>distanceInMeters\<close>, operation by operation. The coordinates of a point are finite
  doubles.
\<close>

definition distanceInMeters :: "libm \<Rightarrow> GeoPoint \<Rightarrow> GeoPoint \<Rightarrow> number" where
  "distanceInMeters m a b =
     (let lat1 = toRadians (Num (latitude a));
          lat2 = toRadians (Num (latitude b));
          deltaLat = toRadians (js_minus (Num (latitude b)) (Num (latitude a)));
          deltaLon = toRadians (js_minus (Num (longitude b)) (Num (longitude a)));
          sinLat = Math_sin m (js_divide deltaLat (Num 2));
          sinLon = Math_sin m (js_divide deltaLon (Num 2));
          haversine =
            js_plus (js_times sinLat sinLat)
              (js_times (js_times (js_times (Math_cos m lat1) (Math_cos m lat2)) sinLon)
                 sinLon);
          c = js_times (Num 2)
                (Math_atan2 m (Math_sqrt haversine)
                   (Math_sqrt (js_minus (Num 1) haversine)))
      in Math_round (js_times EARTH_RADIUS_METERS c))"

datatype TravelMode = Walk | Drive

text \<open>
  \<open>estimateDurationSeconds\<close>. The speed on foot is the double written \<open>1.2\<close>, which is
  \<open>5404319552844595 / 2 ^ 52\<close>.
\<close>

definition estimateDurationSeconds :: "number \<Rightarrow> TravelMode \<Rightarrow> number" where
  "estimateDurationSeconds meters mode =
     (let speed = (if mode = Walk then Num (5404319552844595 / 4503599627370496)
                   else Num 10)
      in js_divide meters speed)"

text \<open>
  A natural number in decimal digits (the status of a response in an error message).
\<close>

fun digits_of :: "nat \<Rightarrow> jsstring" where
  "digits_of n = (if n < 10 then [0x30 + n] else digits_of (n div 10) @ [0x30 + n mod 10])"

declare digits_of.simps [simp del]

text \<open>A number is falsy when it is zero or \<open>NaN\<close>.\<close>

definition falsy :: "number \<Rightarrow> bool" where
  "falsy n = (n = Num 0 \<or> n = NaN)"

definition isNaN :: "number \<Rightarrow> bool" where
  "isNaN n = (n = NaN)"

text \<open>
  \<open>formatDuration\<close>. The test \<open>!seconds\<close> holds for \<open>undefined\<close>, for \<open>NaN\<close> and for zero.
  The minutes are followed by the sign \<open>U+5206\<close>, the hours by \<open>U+6642 U+9593\<close>. How a
  number is printed inside a template literal (\<open>Number::toString\<close> of ECMAScript, which
  prints the shortest decimal that reads back as the same double, in exponent notation
  from \<open>10 ^ 21\<close> on) is the parameter \<open>toString\<close>.
\<close>

definition formatDuration :: "(number \<Rightarrow> jsstring) \<Rightarrow> number option \<Rightarrow> jsstring" where
  "formatDuration toString seconds =
     (case seconds of
        None \<Rightarrow> ascii ''-''
      | Some s \<Rightarrow>
          if falsy s \<or> isNaN s then ascii ''-''
          else
            let minutes = Math_round (js_divide s (Num 60)) in
            if js_less minutes (Num 60) then toString minutes @ [0x5206]
            else
              let hours = Math_floor (js_divide minutes (Num 60));
                  restMinutes = js_remainder minutes (Num 60)
              in toString hours @ [0x6642, 0x9593] @ toString restMinutes @ [0x5206])"

text \<open>
  \<open>findNearestShelter\<close>: the loop keeps the best pair seen so far and replaces it when
  there is none yet or the new distance is smaller.
\<close>

fun nearest_loop ::
  "libm \<Rightarrow> GeoPoint \<Rightarrow> (CoolingShelter \<times> number) option \<Rightarrow> CoolingShelter list \<Rightarrow>
   (CoolingShelter \<times> number) option" where
  "nearest_loop m point best [] = best"
| "nearest_loop m point best (shelter # rest) =
     (let distanceMeters =
            distanceInMeters m point
              \<lparr> latitude = latitude shelter, longitude = longitude shelter \<rparr>
      in nearest_loop m point
           (case best of
              None \<Rightarrow> Some (shelter, distanceMeters)
            | Some b \<Rightarrow>
                if js_less distanceMeters (snd b) then Some (shelter, distanceMeters)
                else best)
           rest)"

definition findNearestShelter ::
  "libm \<Rightarrow> CoolingShelter list \<Rightarrow> GeoPoint \<Rightarrow> (CoolingShelter \<times> number) option" where
  "findNearestShelter m shelters point = nearest_loop m point None shelters"

section \<open>Fetching from candidate sources\<close>

text \<open>
  What \<open>fetch\<close> does for one address: it throws (the message of the error is kept), or
  it returns a response with its \<open>ok\<close> flag, status, status text and body.
\<close>

datatype 'b fetched = Threw jsstring | Response bool nat jsstring 'b

text \<open>
  The network is outside the program: \<open>fetch\<close> takes the state of the world and returns
  the state after the request. \<open>decodeCsvResponse\<close> and the delimited-text parser are
  parameters too; decoding may throw while it reads the body.
\<close>

record ('w, 'b) env =
  fetch :: "'w \<Rightarrow> jsstring \<Rightarrow> 'b fetched \<times> 'w"
  decodeCsvResponse :: "'b \<Rightarrow> jsstring + jsstring"
  papa_parse :: "jsstring \<Rightarrow> rawrow option list"

record FetchResult =
  shelters :: "CoolingShelter list"
  sourceUrl :: jsstring

text \<open>
  The body of the \<open>try\<close> block for a source that is not blank: \<open>Inl\<close> is the message of
  the error thrown, \<open>Inr\<close> the records. The message of an empty data set is
  \<open>U+30C7 U+30FC U+30BF U+304C U+7A7A U+3067 U+3057 U+305F U+3002\<close>.
\<close>

definition attempt ::
  "('w, 'b) env \<Rightarrow> 'w \<Rightarrow> jsstring \<Rightarrow> (jsstring + CoolingShelter list) \<times> 'w" where
  "attempt e w trimmed =
     (case fetch e w trimmed of
        (Threw message, w') \<Rightarrow> (Inl message, w')
      | (Response ok status statusText body, w') \<Rightarrow>
          (if \<not> ok
           then Inl (ascii ''HTTP '' @ digits_of status @ ascii '' '' @ statusText)
           else
             (case decodeCsvResponse e body of
                Inl message \<Rightarrow> Inl message
              | Inr csvText \<Rightarrow>
                  let found = parseCoolingShelterCsv (papa_parse e csvText) in
                  if length found = 0
                  then Inl [0x30C7, 0x30FC, 0x30BF, 0x304C, 0x7A7A, 0x3067, 0x3057, 0x305F,
                            0x3002]
                  else Inr found),
           w'))"

text \<open>\<open>errors.join('\n')\<close>.\<close>

fun join_lines :: "jsstring list \<Rightarrow> jsstring" where
  "join_lines [] = []"
| "join_lines [x] = x"
| "join_lines (x # y # ys) = x @ [0x0A] @ join_lines (y # ys)"

text \<open>
  The loop of \<open>fetchSheltersFromCandidates\<close>: a blank source is passed over without a
  request and without an entry in \<open>errors\<close>; a failed attempt adds
  \<open>source + ": " + message\<close>; the first success returns. After the last source the
  function throws an error whose message is the joined list (\<open>Inl\<close>).
\<close>

fun fetch_loop ::
  "('w, 'b) env \<Rightarrow> 'w \<Rightarrow> jsstring list \<Rightarrow> jsstring list \<Rightarrow> (jsstring + FetchResult) \<times> 'w"
  where
  "fetch_loop e w errors [] = (Inl (join_lines errors), w)"
| "fetch_loop e w errors (source # rest) =
     (let trimmed = trim source in
      if trimmed = [] then fetch_loop e w errors rest
      else
        (case attempt e w trimmed of
           (Inr found, w') \<Rightarrow> (Inr \<lparr> shelters = found, sourceUrl = trimmed \<rparr>, w')
         | (Inl message, w') \<Rightarrow>
             fetch_loop e w' (errors @ [source @ ascii '': '' @ message]) rest))"

definition fetchSheltersFromCandidates ::
  "('w, 'b) env \<Rightarrow> 'w \<Rightarrow> jsstring list \<Rightarrow> (jsstring + FetchResult) \<times> 'w" where
  "fetchSheltersFromCandidates e w sources = fetch_loop e w [] sources"

chapter \<open>Verification\<close>

section \<open>Properties of header normalisation\<close>

text \<open>A code unit that no step of \<open>normalizeKey\<close> touches.\<close>

definition key_stable :: "jschar \<Rightarrow> bool" where
  "key_stable c =
     (\<not> (0xFF01 \<le> c \<and> c \<le> 0xFF5E) \<and> \<not> is_space c \<and> c \<noteq> 0x28 \<and>
      c \<noteq> 0x30FB)"

lemma not_space_3000: "\<not> is_space c \<Longrightarrow> c \<noteq> 0x3000"
  by (auto simp: is_space_def)

lemma not_space_29: "\<not> is_space 0x29"
  by (simp add: is_space_def)

lemma stable_half: "key_stable c \<Longrightarrow> half_char c = c"
  by (auto simp: key_stable_def half_char_def)

lemma stable_paren: "key_stable c \<Longrightarrow> paren_char c = c"
  by (auto simp: key_stable_def paren_char_def)

lemma stable_colon: "key_stable c \<Longrightarrow> colon_char c = c"
  by (auto simp: key_stable_def colon_char_def)

lemma key_stable_fixed:
  assumes "list_all key_stable s"
  shows "normalizeKey s = s"
proof -
  have a: "\<And>c. c \<in> set s \<Longrightarrow> key_stable c"
    using assms by (simp add: list_all_iff)
  have h1: "toHalfWidth s = s"
    unfolding toHalfWidth_def using a by (intro map_idI) (simp add: stable_half)
  have h2: "filter (\<lambda>c. \<not> is_space c) s = s"
    using a by (simp add: filter_id_conv key_stable_def)
  have h3: "map paren_char s = s"
    using a by (intro map_idI) (simp add: stable_paren)
  have h4: "filter (\<lambda>c. c \<noteq> 0x30FB) s = s"
    using a by (simp add: filter_id_conv key_stable_def)
  have h5: "filter (\<lambda>c. c \<noteq> 0x3000) s = s"
    using a by (simp add: filter_id_conv key_stable_def not_space_3000)
  have h6: "map colon_char s = s"
    using a by (intro map_idI) (simp add: stable_colon)
  show ?thesis
    by (simp only: normalizeKey_def Let_def h1 h2 h3 h4 h5 h6)
qed

lemma half_char_range: "\<not> (0xFF01 \<le> half_char c \<and> half_char c \<le> 0xFF5E)"
  unfolding half_char_def by (cases "0xFF01 \<le> c \<and> c \<le> 0xFF5E") auto

lemma paren_char_stable:
  assumes "\<not> (0xFF01 \<le> c \<and> c \<le> 0xFF5E)" and "\<not> is_space c"
  shows "\<not> (0xFF01 \<le> paren_char c \<and> paren_char c \<le> 0xFF5E) \<and>
         \<not> is_space (paren_char c) \<and> paren_char c \<noteq> 0x28"
proof (cases "c = 0x28 \<or> c = 0x29")
  case True
  then have "paren_char c = 0x29" by (auto simp: paren_char_def)
  then show ?thesis by (simp add: not_space_29)
next
  case False
  with assms(1) have "paren_char c = c" by (auto simp: paren_char_def)
  with assms False show ?thesis by simp
qed

lemma colon_char_stable:
  assumes "\<not> (0xFF01 \<le> c \<and> c \<le> 0xFF5E)"
  shows "colon_char c = c"
  using assms by (auto simp: colon_char_def)

lemma normalizeKey_char:
  assumes "\<not> is_space (half_char c)" and "paren_char (half_char c) \<noteq> 0x30FB"
  shows "key_stable (colon_char (paren_char (half_char c)))"
proof -
  let ?p = "paren_char (half_char c)"
  have p: "\<not> (0xFF01 \<le> ?p \<and> ?p \<le> 0xFF5E) \<and> \<not> is_space ?p \<and> ?p \<noteq> 0x28"
    using paren_char_stable [OF half_char_range assms(1)] .
  then have "colon_char ?p = ?p" by (simp add: colon_char_stable)
  with p assms(2) show ?thesis by (simp add: key_stable_def)
qed

lemma normalizeKey_stable: "list_all key_stable (normalizeKey s)"
  by (auto simp: normalizeKey_def Let_def toHalfWidth_def list_all_iff normalizeKey_char)

text \<open>
  C4. The Header Normalizer is idempotent: normalising an already normalised label
  changes nothing, for every input string.
\<close>

theorem normalizeKey_idempotent: "normalizeKey (normalizeKey x) = normalizeKey x"
  by (rule key_stable_fixed) (rule normalizeKey_stable)

text \<open>
  C5. The claim that every opening parenthesis becomes the ASCII opening parenthesis
  fails on the code: full-width forms are made half-width first, and the callback then
  sends every parenthesis other than the full-width opening one, so also the ASCII
  opening one, to the closing parenthesis. The label \<open>(a)\<close> and its full-width spelling
  both normalise to \<open>)a)\<close>.
\<close>

theorem normalizeKey_open_paren_lost:
  "normalizeKey (ascii ''(a)'') = ascii '')a)'' \<and>
   normalizeKey [0xFF08, 0x61, 0xFF09] = ascii '')a)''"
  by (simp add: normalizeKey_def toHalfWidth_def ascii_def is_space_def paren_char_def
      half_char_def colon_char_def)

section \<open>Properties of time coercion\<close>

text \<open>The shape \<open>HH:MM\<close>: two digits, the ASCII colon, two digits.\<close>

definition hhmm :: "jsstring \<Rightarrow> bool" where
  "hhmm t =
     (\<exists>h1 h2 m1 m2. t = [h1, h2, 0x3A, m1, m2] \<and> is_digit h1 \<and> is_digit h2 \<and>
        is_digit m1 \<and> is_digit m2)"

lemma match_at_groups:
  assumes "match_at s = Some (g1, g2)"
  shows "g1 = take 2 (takeWhile is_digit s) \<and> g1 \<noteq> [] \<and>
         (g2 = None \<or> (\<exists>d1 d2. g2 = Some [d1, d2] \<and> is_digit d1 \<and> is_digit d2))"
  using assms by (auto simp: match_at_def Let_def split: if_splits list.splits)

lemma match_at_None: "match_at s = None \<longleftrightarrow> (s = [] \<or> \<not> is_digit (hd s))"
  by (cases s) (auto simp: match_at_def Let_def)

lemma match_at_Some_digit: "match_at (c # cs) = Some g \<Longrightarrow> is_digit c"
  using match_at_None [of "c # cs"] by auto

lemma match_at_digit_Some: "is_digit c \<Longrightarrow> match_at (c # cs) \<noteq> None"
  using match_at_None [of "c # cs"] by auto

lemma time_match_None: "time_match s = None \<longleftrightarrow> (\<forall>c \<in> set s. \<not> is_digit c)"
proof (induction s)
  case Nil
  show ?case by simp
next
  case (Cons c cs)
  show ?case
  proof (cases "match_at (c # cs)")
    case None
    then have "\<not> is_digit c" using match_at_digit_Some by blast
    with None Cons show ?thesis by simp
  next
    case (Some g)
    then have "is_digit c" by (rule match_at_Some_digit)
    with Some show ?thesis by simp
  qed
qed

text \<open>The leftmost match begins at the first digit of the string.\<close>

lemma time_match_first:
  "time_match s = match_at (dropWhile (\<lambda>c. \<not> is_digit c) s)"
proof (induction s)
  case Nil
  show ?case by (simp add: match_at_def)
next
  case (Cons c cs)
  show ?case
  proof (cases "is_digit c")
    case True
    then have "match_at (c # cs) \<noteq> None" by (simp add: match_at_None)
    with True show ?thesis by (auto split: option.splits)
  next
    case False
    then have "match_at (c # cs) = None" by (simp add: match_at_None)
    with False Cons show ?thesis by simp
  qed
qed

lemma digits_take: "\<forall>c \<in> set (take n (takeWhile is_digit s)). is_digit c"
  by (meson in_set_takeD set_takeWhileD)

lemma pad_hour:
  assumes "g1 = take 2 (takeWhile is_digit s)" and "g1 \<noteq> []"
  shows "\<exists>h1 h2. padStart 2 0x30 g1 = [h1, h2] \<and> is_digit h1 \<and> is_digit h2"
proof -
  have d: "\<forall>c \<in> set g1. is_digit c" using assms(1) digits_take by simp
  have l: "length g1 \<le> 2" using assms(1) by simp
  consider a where "g1 = [a]" | a b where "g1 = [a, b]"
    using l assms(2) by (cases g1; cases "tl g1"; cases "tl (tl g1)") auto
  then show ?thesis
  proof cases
    case 1
    with d show ?thesis by (simp add: padStart_def is_digit_def)
  next
    case 2
    with d show ?thesis by (simp add: padStart_def)
  qed
qed

text \<open>
  What \<open>normalizeTime\<close> returns for a string with a digit: the hour is made of the first
  one or two digits of the first run of digits, the minute is two digits.
\<close>

lemma normalizeTime_digit:
  assumes "\<exists>c \<in> set s. is_digit c"
  shows "\<exists>m1 m2. is_digit m1 \<and> is_digit m2 \<and>
           normalizeTime (Some s) =
             Some (padStart 2 0x30 (take 2 (takeWhile is_digit (dropWhile (\<lambda>c. \<not> is_digit c) s)))
                   @ [0x3A, m1, m2])"
proof -
  let ?r = "dropWhile (\<lambda>c. \<not> is_digit c) s"
  from assms have ne: "s \<noteq> []" by auto
  from assms have "time_match s \<noteq> None" by (simp add: time_match_None)
  then obtain g1 g2 where m: "time_match s = Some (g1, g2)" by auto
  then have "match_at ?r = Some (g1, g2)" by (simp add: time_match_first)
  from match_at_groups [OF this] have g1: "g1 = take 2 (takeWhile is_digit ?r)"
    and g2: "g2 = None \<or> (\<exists>d1 d2. g2 = Some [d1, d2] \<and> is_digit d1 \<and> is_digit d2)"
    by simp_all
  have n: "normalizeTime (Some s) =
      Some (padStart 2 0x30 g1 @ [0x3A] @ (case g2 of None \<Rightarrow> ascii ''00'' | Some m \<Rightarrow> m))"
    using ne m by (simp add: normalizeTime_def)
  from g2 show ?thesis
  proof
    assume "g2 = None"
    with n g1 show ?thesis
      by (intro exI [of _ "0x30"]) (simp add: ascii_def is_digit_def)
  next
    assume "\<exists>d1 d2. g2 = Some [d1, d2] \<and> is_digit d1 \<and> is_digit d2"
    then obtain d1 d2 where "g2 = Some [d1, d2]" "is_digit d1" "is_digit d2" by blast
    with n g1 show ?thesis by auto
  qed
qed

lemma normalizeTime_no_digit:
  assumes "\<forall>c \<in> set s. \<not> is_digit c"
  shows "normalizeTime (Some s) = None"
  using assms time_match_None [of s] by (simp add: normalizeTime_def)

lemma normalizeTime_shape:
  assumes "normalizeTime v = Some t"
  shows "hhmm t"
proof -
  from assms obtain s where v: "v = Some s"
    by (auto simp: normalizeTime_def split: option.splits)
  have "\<exists>c \<in> set s. is_digit c"
    using assms normalizeTime_no_digit [of s] unfolding v by fastforce
  from normalizeTime_digit [OF this] obtain m1 m2 where
    m: "is_digit m1" "is_digit m2" and
    t: "normalizeTime (Some s) =
          Some (padStart 2 0x30 (take 2 (takeWhile is_digit (dropWhile (\<lambda>c. \<not> is_digit c) s)))
                @ [0x3A, m1, m2])"
    by blast
  let ?g = "take 2 (takeWhile is_digit (dropWhile (\<lambda>c. \<not> is_digit c) s))"
  have "?g \<noteq> []"
  proof -
    from \<open>\<exists>c \<in> set s. is_digit c\<close> have "dropWhile (\<lambda>c. \<not> is_digit c) s \<noteq> []" by auto
    moreover have "is_digit (hd (dropWhile (\<lambda>c. \<not> is_digit c) s))"
      using calculation hd_dropWhile [of "\<lambda>c. \<not> is_digit c" s] by simp
    ultimately show ?thesis by (cases "dropWhile (\<lambda>c. \<not> is_digit c) s") auto
  qed
  from pad_hour [OF refl this] obtain h1 h2 where
    h: "padStart 2 0x30 ?g = [h1, h2]" "is_digit h1" "is_digit h2" by blast
  from t h m assms v show ?thesis by (auto simp: hhmm_def)
qed

lemma normalizeTime_examples:
  assumes "is_digit h1" and "is_digit h2" and "is_digit m1" and "is_digit m2"
  shows "normalizeTime (Some [h1, 0x3A, m1, m2]) = Some [0x30, h1, 0x3A, m1, m2]"
    and "normalizeTime (Some [h1, h2, 0x3A, m1, m2]) = Some [h1, h2, 0x3A, m1, m2]"
    and "normalizeTime (Some [h1, h2, 0xFF1A, m1, m2]) = Some [h1, h2, 0x3A, m1, m2]"
    and "normalizeTime (Some [h1, h2, m1, m2]) = Some [h1, h2, 0x3A, m1, m2]"
    and "normalizeTime (Some [h1, h2]) = Some [h1, h2, 0x3A, 0x30, 0x30]"
    and "normalizeTime (Some [h1]) = Some [0x30, h1, 0x3A, 0x30, 0x30]"
  using assms
  by (simp_all add: normalizeTime_def match_at_def padStart_def ascii_def is_digit_def)

lemma normalizeTime_930:
  "normalizeTime (Some (ascii ''9:30'')) = Some (ascii ''09:30'')"
  by (simp add: normalizeTime_def match_at_def padStart_def ascii_def is_digit_def)

text \<open>
  C6. Time coercion matches a one-or-two digit hour, an optional colon (ASCII or
  full-width) and an optional two-digit minute. Every result that is not absent has the
  shape \<open>HH:MM\<close>; a string without a digit, which the pattern cannot match, yields absent;
  the hour is padded with a zero, a missing minute is \<open>00\<close>; \<open>9:30\<close> becomes \<open>09:30\<close>. The
  function is total: it returns for every input, absent included.
\<close>

theorem normalizeTime_contract:
  "(\<forall>t. normalizeTime v = Some t \<longrightarrow> hhmm t) \<and>
   ((\<forall>c \<in> set s. \<not> is_digit c) \<longrightarrow> normalizeTime (Some s) = None) \<and>
   normalizeTime None = None \<and>
   (is_digit h1 \<and> is_digit h2 \<and> is_digit m1 \<and> is_digit m2 \<longrightarrow>
      normalizeTime (Some [h1, 0x3A, m1, m2]) = Some [0x30, h1, 0x3A, m1, m2] \<and>
      normalizeTime (Some [h1, h2, 0x3A, m1, m2]) = Some [h1, h2, 0x3A, m1, m2] \<and>
      normalizeTime (Some [h1, h2, 0xFF1A, m1, m2]) = Some [h1, h2, 0x3A, m1, m2] \<and>
      normalizeTime (Some [h1, h2, m1, m2]) = Some [h1, h2, 0x3A, m1, m2] \<and>
      normalizeTime (Some [h1, h2]) = Some [h1, h2, 0x3A, 0x30, 0x30] \<and>
      normalizeTime (Some [h1]) = Some [0x30, h1, 0x3A, 0x30, 0x30]) \<and>
   normalizeTime (Some (ascii ''9:30'')) = Some (ascii ''09:30'')"
  using normalizeTime_shape [of v] normalizeTime_no_digit [of s]
    normalizeTime_examples [of h1 h2 m1 m2] normalizeTime_930
  by (simp add: normalizeTime_def)

theorem normalizeTime_contract_witness:
  "hhmm (ascii ''24:99'') \<and>
   normalizeTime (Some (ascii ''24:99'')) = Some (ascii ''24:99'') \<and>
   normalizeTime (Some (ascii ''ab'')) = None \<and>
   normalizeTime (Some (ascii ''7:45'')) = Some (ascii ''07:45'') \<and>
   normalizeTime (Some (ascii ''17'')) = Some (ascii ''17:00'')"
proof -
  have d: "is_digit 0x37 \<and> is_digit 0x31 \<and> is_digit 0x34 \<and> is_digit 0x35"
    by (simp add: is_digit_def)
  have n: "\<forall>c \<in> set (ascii ''ab''). \<not> is_digit c"
    by (simp add: ascii_def is_digit_def)
  have e: "normalizeTime (Some (ascii ''24:99'')) = Some (ascii ''24:99'')"
    by (simp add: normalizeTime_def match_at_def padStart_def ascii_def is_digit_def)
  from e n d
    normalizeTime_contract [of "Some (ascii ''24:99'')" "ascii ''ab''" "0x37" "0x31" "0x34" "0x35"]
    normalizeTime_contract [of "Some (ascii ''24:99'')" "ascii ''ab''" "0x31" "0x37" "0x34" "0x35"]
  show ?thesis by (simp add: ascii_def)
qed

text \<open>
  C10. The match is not anchored: a string yields absent exactly when it contains no
  decimal digit (an ASCII digit, the class \<open>\d\<close>); a string with a digit yields a value of the shape \<open>HH:MM\<close> whose hour is
  made, with a zero in front if needed, of the first one or two digits of the first run of
  digits found anywhere in it. A note such as \<open>U+7B2C 3 U+706B U+66DC U+4F11\<close> ("closed on
  the 3rd Tuesday") becomes \<open>03:00\<close>.
\<close>

theorem normalizeTime_unanchored:
  "(normalizeTime (Some s) = None \<longleftrightarrow> (\<forall>c \<in> set s. \<not> is_digit c)) \<and>
   ((\<exists>c \<in> set s. is_digit c) \<longrightarrow>
      (\<exists>t m1 m2. normalizeTime (Some s) = Some t \<and> hhmm t \<and>
         t = padStart 2 0x30
               (take 2 (takeWhile is_digit (dropWhile (\<lambda>c. \<not> is_digit c) s)))
             @ [0x3A, m1, m2])) \<and>
   normalizeTime (Some [0x7B2C, 0x33, 0x706B, 0x66DC, 0x4F11]) = Some (ascii ''03:00'')"
proof -
  have a: "normalizeTime (Some s) = None \<longleftrightarrow> (\<forall>c \<in> set s. \<not> is_digit c)"
  proof
    assume n: "normalizeTime (Some s) = None"
    show "\<forall>c \<in> set s. \<not> is_digit c"
    proof (rule ccontr)
      assume "\<not> (\<forall>c \<in> set s. \<not> is_digit c)"
      then have "\<exists>c \<in> set s. is_digit c" by blast
      from normalizeTime_digit [OF this] n show False by auto
    qed
  next
    assume "\<forall>c \<in> set s. \<not> is_digit c"
    then show "normalizeTime (Some s) = None" by (rule normalizeTime_no_digit)
  qed
  have b: "(\<exists>c \<in> set s. is_digit c) \<longrightarrow>
      (\<exists>t m1 m2. normalizeTime (Some s) = Some t \<and> hhmm t \<and>
         t = padStart 2 0x30
               (take 2 (takeWhile is_digit (dropWhile (\<lambda>c. \<not> is_digit c) s)))
             @ [0x3A, m1, m2])"
  proof
    assume "\<exists>c \<in> set s. is_digit c"
    from normalizeTime_digit [OF this] obtain m1 m2 where
      t: "normalizeTime (Some s) =
          Some (padStart 2 0x30 (take 2 (takeWhile is_digit (dropWhile (\<lambda>c. \<not> is_digit c) s)))
                @ [0x3A, m1, m2])"
      by blast
    from normalizeTime_shape [OF t] t show "\<exists>t m1 m2. normalizeTime (Some s) = Some t \<and> hhmm t \<and>
         t = padStart 2 0x30
               (take 2 (takeWhile is_digit (dropWhile (\<lambda>c. \<not> is_digit c) s)))
             @ [0x3A, m1, m2]"
      by blast
  qed
  have c: "normalizeTime (Some [0x7B2C, 0x33, 0x706B, 0x66DC, 0x4F11]) = Some (ascii ''03:00'')"
    by (simp add: normalizeTime_def match_at_def padStart_def ascii_def is_digit_def)
  from a b c show ?thesis by blast
qed

theorem normalizeTime_unanchored_witness:
  "normalizeTime (Some (ascii ''tel 0480-22'')) = Some (ascii ''04:80'') \<and>
   hhmm (ascii ''04:80'') \<and>
   normalizeTime (Some (ascii ''closed'')) = None"
proof -
  have d: "\<exists>c \<in> set (ascii ''tel 0480-22''). is_digit c"
    by (simp add: ascii_def is_digit_def)
  have n: "\<forall>c \<in> set (ascii ''closed''). \<not> is_digit c"
    by (simp add: ascii_def is_digit_def)
  have e: "normalizeTime (Some (ascii ''tel 0480-22'')) = Some (ascii ''04:80'')"
    by (simp add: normalizeTime_def match_at_def padStart_def ascii_def is_digit_def)
  from d n e normalizeTime_unanchored [of "ascii ''tel 0480-22''"]
    normalizeTime_unanchored [of "ascii ''closed''"]
  show ?thesis by auto
qed

section \<open>Properties of numeric coercion\<close>

lemma unsigned_decimal_nonneg: "unsigned_decimal s = Some v \<Longrightarrow> 0 \<le> v"
  by (auto simp: unsigned_decimal_def Let_def split: list.splits if_splits)

lemma double_limit_pos: "0 < double_limit"
  by (simp add: double_limit_def)

lemma Number_js_finite:
  assumes "Number_js s = Num x"
  shows "\<bar>x\<bar> < double_limit"
proof (cases s)
  case Nil
  with assms show ?thesis using double_limit_pos by (simp add: Number_js_def)
next
  case (Cons c r)
  let ?body = "if c = 0x2B \<or> c = 0x2D then r else s"
  from assms Cons obtain v where v: "unsigned_decimal ?body = Some v" "v < double_limit"
    and x: "x = (if c = 0x2D then - v else v)"
    by (auto simp: Number_js_def Let_def split: option.splits if_splits)
  from v(1) have "0 \<le> v" by (rule unsigned_decimal_nonneg)
  with v(2) x show ?thesis by auto
qed

text \<open>A number that \<open>parseNumber\<close> returns is finite.\<close>

lemma parseNumber_finite:
  assumes "parseNumber v = Some n"
  shows "\<exists>x. n = Num x \<and> \<bar>x\<bar> < double_limit"
proof -
  from assms obtain s where n: "n = Number_js s" and f: "isFinite n"
    by (auto simp: parseNumber_def Let_def split: option.splits if_splits)
  from f obtain x where x: "n = Num x" by (cases n) (auto simp: isFinite_def)
  with n have "Number_js s = Num x" by simp
  from Number_js_finite [OF this] x show ?thesis by simp
qed

lemma parseNumber_None [simp]: "parseNumber None = None"
  by (simp add: parseNumber_def)

section \<open>Properties of record assembly\<close>

lemma pickFirst_nonempty: "pickFirst r cs = Some v \<Longrightarrow> v \<noteq> []"
  by (induction cs) (auto simp: Let_def split: option.splits if_splits)

lemma pickFirst_empty_row [simp]: "pickFirst [] cs = None"
  by (induction cs) (auto simp: Let_def get_property_def)

text \<open>A value found by \<open>pickFirst\<close> is the value of one of the candidate keys.\<close>

lemma pickFirst_property:
  "pickFirst r cs = Some v \<Longrightarrow> \<exists>c \<in> set cs. get_property r (normalizeKey c) = Some v"
  by (induction cs) (auto simp: Let_def split: option.splits if_splits)

lemma map_of_set_property: "map_of (set_property k v r) = (map_of r)(k \<mapsto> v)"
  by (induction r) (auto simp: fun_eq_iff)

lemma map_of_fold_property:
  "map_of (foldl (\<lambda>obj (k, v). set_property k v obj) acc es) key = Some val \<Longrightarrow>
   (key, val) \<in> set es \<or> map_of acc key = Some val"
proof (induction es arbitrary: acc)
  case Nil
  then show ?case by simp
next
  case (Cons e es)
  obtain k v where e: "e = (k, v)" by (cases e)
  from Cons.prems have
    "map_of (foldl (\<lambda>obj (k, v). set_property k v obj) (set_property k v acc) es) key = Some val"
    by (simp add: e)
  from Cons.IH [OF this] show ?case
    by (auto simp: e map_of_set_property split: if_splits)
qed

text \<open>A value of a normalised row comes from an entry of the parsed row.\<close>

lemma get_property_normalizeRow:
  assumes "get_property (normalizeRow raw) key = Some val"
  shows "\<exists>(k, v) \<in> set raw. normalizeKey k = key \<and> cleanValue v = Some val"
proof -
  from assms have "map_of (normalizeRow raw) key = Some (Some val)"
    by (auto simp: get_property_def split: option.splits)
  then have "(key, Some val) \<in>
      set (map (\<lambda>(rawKey, rawValue). (normalizeKey rawKey, cleanValue rawValue)) raw)"
    unfolding normalizeRow_def fromEntries_def
    using map_of_fold_property by fastforce
  then show ?thesis by auto
qed

text \<open>The mandatory fields of a parsed row, resolved as the loop body resolves them.\<close>

definition mandatory_present :: "rawrow option \<Rightarrow> bool" where
  "mandatory_present rawRow =
     (case rawRow of
        None \<Rightarrow> False
      | Some raw \<Rightarrow>
          row_id (normalizeRow raw) \<noteq> None \<and> row_name (normalizeRow raw) \<noteq> None \<and>
          row_latitude (normalizeRow raw) \<noteq> None \<and> row_longitude (normalizeRow raw) \<noteq> None)"

definition lacks_coordinates :: "rawrow option \<Rightarrow> bool" where
  "lacks_coordinates rawRow =
     (case rawRow of
        None \<Rightarrow> True
      | Some raw \<Rightarrow>
          row_latitude (normalizeRow raw) = None \<or> row_longitude (normalizeRow raw) = None)"

lemma assemble_iff:
  "assemble r \<noteq> None \<longleftrightarrow>
   row_id r \<noteq> None \<and> row_name r \<noteq> None \<and> row_latitude r \<noteq> None \<and> row_longitude r \<noteq> None"
proof -
  have i: "\<And>v. row_id r = Some v \<Longrightarrow> v \<noteq> []"
    unfolding row_id_def by (rule pickFirst_nonempty)
  have n: "\<And>v. row_name r = Some v \<Longrightarrow> v \<noteq> []"
    unfolding row_name_def by (rule pickFirst_nonempty)
  show ?thesis
    by (cases "row_id r"; cases "row_name r"; cases "row_latitude r"; cases "row_longitude r")
      (auto simp: assemble_def Let_def dest: i n)
qed

lemma assemble_fields:
  assumes "assemble r = Some s"
  shows "Some (shelter_id s) = row_id r" and "Some (name s) = row_name r"
    and "capacity s = row_capacity r"
    and "row_latitude r = Some (Num (latitude s))"
    and "row_longitude r = Some (Num (longitude s))"
proof -
  from assms have ne: "assemble r \<noteq> None" by simp
  then obtain i n la lo where f: "row_id r = Some i" "row_name r = Some n"
    "row_latitude r = Some la" "row_longitude r = Some lo"
    unfolding assemble_iff by auto
  from f(3) obtain x where x: "la = Num x"
    unfolding row_latitude_def using parseNumber_finite by blast
  from f(4) obtain y where y: "lo = Num y"
    unfolding row_longitude_def using parseNumber_finite by blast
  from assms f x y show "Some (shelter_id s) = row_id r" and "Some (name s) = row_name r"
    and "capacity s = row_capacity r"
    and "row_latitude r = Some (Num (latitude s))"
    and "row_longitude r = Some (Num (longitude s))"
    by (auto simp: assemble_def Let_def finite_value_def split: if_splits)
qed

lemma parseRow_iff: "parseRow rawRow \<noteq> None \<longleftrightarrow> mandatory_present rawRow"
proof (cases rawRow)
  case None
  then show ?thesis by (simp add: parseRow_def mandatory_present_def)
next
  case (Some raw)
  show ?thesis
  proof (cases "normalizeRow raw = []")
    case True
    with Some show ?thesis
      by (simp add: parseRow_def mandatory_present_def row_id_def)
  next
    case False
    with Some show ?thesis
      using assemble_iff [of "normalizeRow raw"]
      by (simp add: parseRow_def mandatory_present_def)
  qed
qed

lemma parseRow_assemble:
  "parseRow (Some raw) = Some s \<Longrightarrow> assemble (normalizeRow raw) = Some s"
  by (auto simp: parseRow_def Let_def split: if_splits)

lemma parse_loop_append:
  "parse_loop acc data = acc @ List.map_filter parseRow data"
  by (induction data arbitrary: acc) (auto simp: List.map_filter_simps split: option.splits)

lemma parse_map_filter: "parseCoolingShelterCsv data = List.map_filter parseRow data"
  by (simp add: parseCoolingShelterCsv_def parse_loop_append)

lemma parse_append:
  "parseCoolingShelterCsv (xs @ ys) = parseCoolingShelterCsv xs @ parseCoolingShelterCsv ys"
  by (simp add: parse_map_filter List.map_filter_def)

lemma parse_filter:
  "parseCoolingShelterCsv data = map (the \<circ> parseRow) (filter mandatory_present data)"
proof -
  have "(\<lambda>x. parseRow x \<noteq> None) = mandatory_present"
    by (rule ext) (rule parseRow_iff)
  then show ?thesis by (simp add: parse_map_filter List.map_filter_def)
qed

lemma parse_all_present:
  assumes "\<forall>x \<in> set data. mandatory_present x"
  shows "length (parseCoolingShelterCsv data) = length data"
proof -
  from assms have "filter mandatory_present data = data" by (simp add: filter_id_conv)
  then show ?thesis by (simp add: parse_filter)
qed

lemma parse_skip:
  assumes "\<not> mandatory_present x"
  shows "parseCoolingShelterCsv [x] = []"
  using assms by (simp add: parse_filter)

lemma lacks_not_present: "lacks_coordinates x \<Longrightarrow> \<not> mandatory_present x"
  by (cases x) (auto simp: lacks_coordinates_def mandatory_present_def)

text \<open>
  C3. A row yields a record if and only if its identifier, display name, latitude and
  longitude all resolve to a value; any other row is passed over and nothing is raised
  (the parser is a total function returning the list of records). The records are those
  of the rows with all four fields, in the order of the rows. Hence a batch of \<open>N\<close> rows
  of which one lacks a coordinate, the others having all four fields, yields \<open>N - 1\<close>
  records: those of the other rows, in their order.
\<close>

theorem parse_drops_incomplete_rows:
  "(parseRow rawRow \<noteq> None \<longleftrightarrow> mandatory_present rawRow) \<and>
   parseCoolingShelterCsv data = map (the \<circ> parseRow) (filter mandatory_present data) \<and>
   ((\<forall>x \<in> set (before @ after). mandatory_present x) \<and> lacks_coordinates bad \<longrightarrow>
      length (parseCoolingShelterCsv (before @ bad # after)) = length (before @ bad # after) - 1 \<and>
      parseCoolingShelterCsv (before @ bad # after) =
        parseCoolingShelterCsv before @ parseCoolingShelterCsv after \<and>
      parseCoolingShelterCsv (before @ bad # after) = map (the \<circ> parseRow) (before @ after))"
proof -
  have c: "length (parseCoolingShelterCsv (before @ bad # after)) =
             length (before @ bad # after) - 1 \<and>
           parseCoolingShelterCsv (before @ bad # after) =
             parseCoolingShelterCsv before @ parseCoolingShelterCsv after \<and>
           parseCoolingShelterCsv (before @ bad # after) = map (the \<circ> parseRow) (before @ after)"
    if p: "\<forall>x \<in> set (before @ after). mandatory_present x" and l: "lacks_coordinates bad"
  proof -
    from l have "parseCoolingShelterCsv [bad] = []"
      by (intro parse_skip lacks_not_present)
    then have e: "parseCoolingShelterCsv (before @ bad # after) =
        parseCoolingShelterCsv before @ parseCoolingShelterCsv after"
      using parse_append [of before "[bad] @ after"] parse_append [of "[bad]" after] by simp
    then have e': "parseCoolingShelterCsv (before @ bad # after) =
        parseCoolingShelterCsv (before @ after)"
      by (simp add: parse_append)
    from p have f: "filter mandatory_present (before @ after) = before @ after"
      by (simp only: filter_id_conv)
    have "parseCoolingShelterCsv (before @ after) = map (the \<circ> parseRow) (before @ after)"
      by (subst parse_filter) (simp only: f)
    with e e' parse_all_present [OF p] show ?thesis by simp
  qed
  from c parseRow_iff [of rawRow] parse_filter [of data] show ?thesis by blast
qed

text \<open>
  Three parsed rows for the statements below: a complete row, a row whose latitude is
  the sentinel \<open>-\<close>, and a complete row whose identifier column is spelt with full-width
  letters and whose capacity is \<open>0\<close>. The name column is \<open>U+540D U+79F0\<close>.
\<close>

definition row_1 :: rawrow where
  "row_1 =
     [(ascii ''ID'', Str (ascii ''1'')), ([0x540D, 0x79F0], Str (ascii ''A'')),
      (ascii ''Latitude'', Str (ascii ''35.9'')), (ascii ''Longitude'', Str (ascii ''139.6''))]"

definition row_2 :: rawrow where
  "row_2 =
     [(ascii ''ID'', Str (ascii ''2'')), ([0x540D, 0x79F0], Str (ascii ''B'')),
      (ascii ''Latitude'', Str (ascii ''-'')), (ascii ''Longitude'', Str (ascii ''139.7''))]"

definition row_3 :: rawrow where
  "row_3 =
     [([0xFF29, 0xFF24], Str (ascii ''3'')), ([0x540D, 0x79F0], Str (ascii '' C '')),
      (ascii ''Latitude'', Str (ascii ''36'')), (ascii ''Longitude'', Str (ascii ''139.'')),
      ([0x53CE, 0x5BB9, 0x53EF, 0x80FD, 0x4EBA, 0x6570], Str (ascii ''0''))]"

text \<open>A complete row whose capacity cell is \<open>-5\<close>.\<close>

definition row_4 :: rawrow where
  "row_4 =
     [(ascii ''ID'', Str (ascii ''4'')), ([0x540D, 0x79F0], Str (ascii ''D'')),
      (ascii ''Latitude'', Str (ascii ''35.9'')), (ascii ''Longitude'', Str (ascii ''139.6'')),
      ([0x53CE, 0x5BB9, 0x53EF, 0x80FD, 0x4EBA, 0x6570], Str (ascii ''-5''))]"

lemmas key_eval =
  normalizeKey_def toHalfWidth_def half_char_def is_space_def paren_char_def colon_char_def
  ascii_def

lemmas value_eval = cleanValue_def trim_def NIL_VALUES_def is_space_def ascii_def

lemmas number_eval =
  parseNumber_def Number_js_def unsigned_decimal_def digits_value_def isFinite_def
  double_limit_def is_digit_def ascii_def

lemma labels_normalized:
  "map normalizeKey id_labels = [ascii ''ID'', ascii ''ID'', ascii ''Id'']"
  "map normalizeKey name_labels =
     [[0x6307, 0x5B9A, 0x6691, 0x71B1, 0x907F, 0x96E3, 0x65BD, 0x8A2D, 0x306E, 0x540D, 0x79F0],
      [0x65BD, 0x8A2D, 0x540D], [0x540D, 0x79F0], [0x907F, 0x96E3, 0x65BD, 0x8A2D, 0x540D]]"
  "map normalizeKey latitude_labels = [[0x7DEF, 0x5EA6], ascii ''Latitude'']"
  "map normalizeKey longitude_labels = [[0x7D4C, 0x5EA6], ascii ''Longitude'']"
  by (simp_all add: id_labels_def name_labels_def latitude_labels_def longitude_labels_def
      key_eval)

lemma capacity_labels_normalized:
  "map normalizeKey capacity_labels = capacity_labels"
  by (simp add: capacity_labels_def key_eval)

lemma pickFirst_map:
  "pickFirst r cs =
     (case filter (\<lambda>v. v \<noteq> None \<and> v \<noteq> Some [])
             (map (get_property r) (map normalizeKey cs)) of
        [] \<Rightarrow> None
      | v # _ \<Rightarrow> v)"
  by (induction cs) (auto simp: Let_def split: option.splits)

lemma row_1_normalized:
  "normalizeRow row_1 =
     [(ascii ''ID'', Some (ascii ''1'')), ([0x540D, 0x79F0], Some (ascii ''A'')),
      (ascii ''Latitude'', Some (ascii ''35.9'')), (ascii ''Longitude'', Some (ascii ''139.6''))]"
  by (simp add: row_1_def normalizeRow_def fromEntries_def key_eval value_eval)

lemma row_2_normalized:
  "normalizeRow row_2 =
     [(ascii ''ID'', Some (ascii ''2'')), ([0x540D, 0x79F0], Some (ascii ''B'')),
      (ascii ''Latitude'', None), (ascii ''Longitude'', Some (ascii ''139.7''))]"
  by (simp add: row_2_def normalizeRow_def fromEntries_def key_eval value_eval)

lemma row_3_normalized:
  "normalizeRow row_3 =
     [(ascii ''ID'', Some (ascii ''3'')), ([0x540D, 0x79F0], Some (ascii ''C'')),
      (ascii ''Latitude'', Some (ascii ''36'')), (ascii ''Longitude'', Some (ascii ''139.'')),
      ([0x53CE, 0x5BB9, 0x53EF, 0x80FD, 0x4EBA, 0x6570], Some (ascii ''0''))]"
  by (simp add: row_3_def normalizeRow_def fromEntries_def key_eval value_eval)

lemma row_4_normalized:
  "normalizeRow row_4 =
     [(ascii ''ID'', Some (ascii ''4'')), ([0x540D, 0x79F0], Some (ascii ''D'')),
      (ascii ''Latitude'', Some (ascii ''35.9'')), (ascii ''Longitude'', Some (ascii ''139.6'')),
      ([0x53CE, 0x5BB9, 0x53EF, 0x80FD, 0x4EBA, 0x6570], Some (ascii ''-5''))]"
  by (simp add: row_4_def normalizeRow_def fromEntries_def key_eval value_eval)

lemma row_1_fields:
  "row_id (normalizeRow row_1) = Some (ascii ''1'')"
  "row_name (normalizeRow row_1) = Some (ascii ''A'')"
  "row_latitude (normalizeRow row_1) = Some (Num 35.9)"
  "row_longitude (normalizeRow row_1) = Some (Num 139.6)"
  unfolding row_1_normalized row_id_def row_name_def row_latitude_def row_longitude_def
    pickFirst_map labels_normalized
  by (simp_all add: get_property_def number_eval)

lemma row_2_fields:
  "row_latitude (normalizeRow row_2) = None"
  unfolding row_2_normalized row_latitude_def pickFirst_map labels_normalized
  by (simp_all add: get_property_def number_eval)

lemma row_3_fields:
  "row_id (normalizeRow row_3) = Some (ascii ''3'')"
  "row_name (normalizeRow row_3) = Some (ascii ''C'')"
  "row_latitude (normalizeRow row_3) = Some (Num 36)"
  "row_longitude (normalizeRow row_3) = Some (Num 139)"
  "row_capacity (normalizeRow row_3) = Some (Num 0)"
  unfolding row_3_normalized row_id_def row_name_def row_latitude_def row_longitude_def
    row_capacity_def pickFirst_map labels_normalized capacity_labels_normalized
  by (simp_all add: get_property_def number_eval capacity_labels_def)

lemma row_4_fields:
  "row_id (normalizeRow row_4) = Some (ascii ''4'')"
  "row_name (normalizeRow row_4) = Some (ascii ''D'')"
  "row_latitude (normalizeRow row_4) = Some (Num 35.9)"
  "row_longitude (normalizeRow row_4) = Some (Num 139.6)"
  "row_capacity (normalizeRow row_4) = Some (Num (- 5))"
  unfolding row_4_normalized row_id_def row_name_def row_latitude_def row_longitude_def
    row_capacity_def pickFirst_map labels_normalized capacity_labels_normalized
  by (simp_all add: get_property_def number_eval capacity_labels_def)

lemma parseRow_fields:
  assumes "mandatory_present (Some raw)"
  shows "\<exists>s. parseRow (Some raw) = Some s \<and>
           Some (shelter_id s) = row_id (normalizeRow raw) \<and>
           Some (name s) = row_name (normalizeRow raw) \<and>
           capacity s = row_capacity (normalizeRow raw)"
proof -
  from assms obtain s where s: "parseRow (Some raw) = Some s"
    using parseRow_iff [of "Some raw"] by auto
  from assemble_fields [OF parseRow_assemble [OF s]] s show ?thesis by simp
qed

theorem parse_drops_incomplete_rows_witness:
  "mandatory_present (Some row_1) \<and> lacks_coordinates (Some row_2) \<and>
   mandatory_present (Some row_3) \<and>
   length (parseCoolingShelterCsv [Some row_1, Some row_2, Some row_3]) = 2 \<and>
   map shelter_id (parseCoolingShelterCsv [Some row_1, Some row_2, Some row_3]) =
     [ascii ''1'', ascii ''3'']"
proof -
  have p1: "mandatory_present (Some row_1)"
    by (simp add: mandatory_present_def row_1_fields)
  have p3: "mandatory_present (Some row_3)"
    by (simp add: mandatory_present_def row_3_fields)
  have l2: "lacks_coordinates (Some row_2)"
    by (simp add: lacks_coordinates_def row_2_fields)
  from p1 p3 have p: "\<forall>x \<in> set ([Some row_1] @ [Some row_3]). mandatory_present x"
    by simp
  from parseRow_fields [OF p1] row_1_fields
  have i1: "shelter_id (the (parseRow (Some row_1))) = ascii ''1''" by auto
  from parseRow_fields [OF p3] row_3_fields
  have i3: "shelter_id (the (parseRow (Some row_3))) = ascii ''3''" by auto
  from p l2
    parse_drops_incomplete_rows
      [of "Some row_1" "[]" "[Some row_1]" "[Some row_3]" "Some row_2"]
  have c: "length (parseCoolingShelterCsv ([Some row_1] @ Some row_2 # [Some row_3])) =
             length ([Some row_1] @ Some row_2 # [Some row_3]) - 1 \<and>
           parseCoolingShelterCsv ([Some row_1] @ Some row_2 # [Some row_3]) =
             parseCoolingShelterCsv [Some row_1] @ parseCoolingShelterCsv [Some row_3] \<and>
           parseCoolingShelterCsv ([Some row_1] @ Some row_2 # [Some row_3]) =
             map (the \<circ> parseRow) ([Some row_1] @ [Some row_3])"
    by blast
  from c [THEN conjunct1]
  have n: "length (parseCoolingShelterCsv [Some row_1, Some row_2, Some row_3]) = 2"
    by simp
  from c [THEN conjunct2, THEN conjunct2]
  have m: "parseCoolingShelterCsv [Some row_1, Some row_2, Some row_3] =
      map (the \<circ> parseRow) [Some row_1, Some row_3]"
    by simp
  from m i1 i3 have "map shelter_id (parseCoolingShelterCsv [Some row_1, Some row_2, Some row_3]) =
     [ascii ''1'', ascii ''3'']"
    by simp
  with p1 p3 l2 n show ?thesis by blast
qed

lemma parse_member:
  assumes "s \<in> set (parseCoolingShelterCsv data)"
  shows "\<exists>raw. Some raw \<in> set data \<and> parseRow (Some raw) = Some s"
proof -
  from assms obtain x where x: "x \<in> set data" "parseRow x = Some s"
    by (auto simp: parse_map_filter List.map_filter_def)
  from x(2) obtain raw where "x = Some raw" by (cases x) (auto simp: parseRow_def)
  with x show ?thesis by auto
qed

lemma capacity_of_row:
  assumes "parseRow (Some raw) = Some s"
  shows "capacity s = row_capacity (normalizeRow raw)"
  using assemble_fields(3) [OF parseRow_assemble [OF assms]] .

lemma capacity_finite:
  assumes "parseRow (Some raw) = Some s"
  shows "capacity s = None \<or> (\<exists>x. capacity s = Some (Num x) \<and> \<bar>x\<bar> < double_limit)"
proof (cases "capacity s")
  case None
  then show ?thesis by simp
next
  case (Some n)
  with capacity_of_row [OF assms] have "parseNumber (pickFirst (normalizeRow raw) capacity_labels) = Some n"
    by (simp add: row_capacity_def)
  from parseNumber_finite [OF this] Some show ?thesis by simp
qed

lemma capacity_absent:
  assumes s: "parseRow (Some raw) = Some s"
    and a: "\<forall>(k, v) \<in> set raw.
              normalizeKey k \<in> set (map normalizeKey capacity_labels) \<longrightarrow> cleanValue v = None"
  shows "capacity s = None"
proof -
  have "pickFirst (normalizeRow raw) capacity_labels = None"
  proof (rule ccontr)
    assume "pickFirst (normalizeRow raw) capacity_labels \<noteq> None"
    then obtain val where "pickFirst (normalizeRow raw) capacity_labels = Some val" by auto
    from pickFirst_property [OF this] obtain c where c: "c \<in> set capacity_labels"
      and g: "get_property (normalizeRow raw) (normalizeKey c) = Some val" by blast
    from get_property_normalizeRow [OF g] obtain k v where kv: "(k, v) \<in> set raw"
      "normalizeKey k = normalizeKey c" "cleanValue v = Some val" by auto
    from c kv(2) have "normalizeKey k \<in> set (map normalizeKey capacity_labels)" by auto
    with a kv(1) have "cleanValue v = None" by auto
    with kv(3) show False by simp
  qed
  with capacity_of_row [OF s] show ?thesis by (simp add: row_capacity_def)
qed

text \<open>
  C7, the claim as stated fails: the sanitiser of \<open>parseNumber\<close> keeps the sign and
  nothing tests it, so a row whose capacity cell is \<open>-5\<close> yields a record whose capacity
  is the negative number \<open>-5\<close>.
\<close>

theorem capacity_negative:
  "map capacity (parseCoolingShelterCsv [Some row_4]) = [Some (Num (- 5))] \<and>
   \<not> (0 :: real) \<le> - 5"
proof -
  have p: "mandatory_present (Some row_4)"
    by (simp add: mandatory_present_def row_4_fields)
  from parseRow_fields [OF p] obtain s where
    s: "parseRow (Some row_4) = Some s" "capacity s = Some (Num (- 5))"
    by (auto simp: row_4_fields)
  then show ?thesis by (simp add: parse_map_filter List.map_filter_def)
qed

text \<open>
  C7, amended. The capacity of every record produced is either absent or a finite
  number (of either sign); it is the number parsed from the capacity cell of the row;
  and it is absent, not zero, for a row that has no capacity column or whose capacity
  cells are all cleaned to absent (empty or a sentinel).
\<close>

theorem capacity_absent_or_finite:
  "(\<forall>s \<in> set (parseCoolingShelterCsv data).
      capacity s = None \<or> (\<exists>x. capacity s = Some (Num x) \<and> \<bar>x\<bar> < double_limit)) \<and>
   (parseRow (Some raw) = Some s \<longrightarrow> capacity s = row_capacity (normalizeRow raw)) \<and>
   (parseRow (Some raw) = Some s \<and>
    (\<forall>(k, v) \<in> set raw.
        normalizeKey k \<in> set (map normalizeKey capacity_labels) \<longrightarrow> cleanValue v = None) \<longrightarrow>
      capacity s = None)"
proof -
  have a: "\<forall>s \<in> set (parseCoolingShelterCsv data).
      capacity s = None \<or> (\<exists>x. capacity s = Some (Num x) \<and> \<bar>x\<bar> < double_limit)"
  proof
    fix s assume "s \<in> set (parseCoolingShelterCsv data)"
    from parse_member [OF this] obtain raw where "parseRow (Some raw) = Some s" by blast
    then show "capacity s = None \<or> (\<exists>x. capacity s = Some (Num x) \<and> \<bar>x\<bar> < double_limit)"
      by (rule capacity_finite)
  qed
  from a capacity_of_row [of raw s] capacity_absent [of raw s] show ?thesis by blast
qed

theorem capacity_absent_or_finite_witness:
  "map capacity (parseCoolingShelterCsv [Some row_1, Some row_3]) = [None, Some (Num 0)] \<and>
   \<bar>0 :: real\<bar> < double_limit"
proof -
  have p1: "mandatory_present (Some row_1)"
    by (simp add: mandatory_present_def row_1_fields)
  have p3: "mandatory_present (Some row_3)"
    by (simp add: mandatory_present_def row_3_fields)
  from p1 obtain s1 where s1: "parseRow (Some row_1) = Some s1"
    using parseRow_iff [of "Some row_1"] by auto
  from p3 obtain s3 where s3: "parseRow (Some row_3) = Some s3"
    using parseRow_iff [of "Some row_3"] by auto
  have n: "\<forall>(k, v) \<in> set row_1.
      normalizeKey k \<in> set (map normalizeKey capacity_labels) \<longrightarrow> cleanValue v = None"
    unfolding capacity_labels_normalized
    by (simp add: row_1_def capacity_labels_def key_eval)
  from s1 n capacity_absent_or_finite [of "[Some row_1, Some row_3]" row_1 s1]
  have c1: "capacity s1 = None" by blast
  from s3 capacity_absent_or_finite [of "[Some row_1, Some row_3]" row_3 s3] row_3_fields
  have c3: "capacity s3 = Some (Num 0)" by simp
  from s1 s3 c1 c3 double_limit_pos show ?thesis
    by (simp add: parse_map_filter List.map_filter_def)
qed

section \<open>Properties of the arithmetic\<close>

lemma floor_log2_eq:
  assumes "2 powi e \<le> \<bar>x\<bar>" and "\<bar>x\<bar> < 2 powi (e + 1)"
  shows "\<lfloor>log 2 \<bar>x\<bar>\<rfloor> = e"
proof -
  have p: "0 < \<bar>x\<bar>"
    using assms(1) zero_less_power_int [of "2 :: real" e] by linarith
  have "(2 :: real) powr real_of_int e = 2 powi e"
    and "(2 :: real) powr (real_of_int e + 1) = 2 powi (e + 1)"
    using powr_real_of_int' [of "2 :: real" e] powr_real_of_int' [of "2 :: real" "e + 1"]
    by simp_all
  with assms show ?thesis
    using floor_log_eq_powr_iff [of "\<bar>x\<bar>" 2 e] p by simp
qed

text \<open>
  How a rounding is computed: \<open>e\<close> is the exponent of the binade of \<open>x\<close> and \<open>n\<close> the
  rounded significand.
\<close>

lemma fl_eq:
  assumes "2 powi e \<le> \<bar>x\<bar>" and "\<bar>x\<bar> < 2 powi (e + 1)" and "- 1022 \<le> e"
    and "round_even (x / 2 powi (e - 52)) = n"
    and "r = of_int n * 2 powi (e - 52)" and "\<bar>r\<bar> < 2 ^ 1024"
  shows "fl x = Num r"
proof -
  have nz: "x \<noteq> 0"
  proof
    assume "x = 0"
    with assms(1) have "(2 :: real) powi e \<le> 0" by simp
    moreover have "0 < (2 :: real) powi e" by (rule zero_less_power_int) simp
    ultimately show False by linarith
  qed
  have k: "max \<lfloor>log 2 \<bar>x\<bar>\<rfloor> (- 1022) - 52 = e - 52"
    using floor_log2_eq [OF assms(1,2)] assms(3) by simp
  show ?thesis
    unfolding fl_def Let_def k assms(4) using nz assms(5,6) by simp
qed

lemma fl_0: "fl 0 = Num 0"
  by (simp add: fl_def)

lemma fl_1: "fl 1 = Num 1"
  by (rule fl_eq [where e = 0 and n = 4503599627370496]) (simp_all add: round_even_def)

lemma js_divide_nonzero: "y \<noteq> 0 \<Longrightarrow> js_divide (Num x) (Num y) = fl (x / y)"
  by simp

lemma nz_180: "(180 :: real) \<noteq> 0" and nz_2: "(2 :: real) \<noteq> 0" and nz_60: "(60 :: real) \<noteq> 0"
  and nz_speed: "(5404319552844595 / 4503599627370496 :: real) \<noteq> 0"
  by simp_all

section \<open>The distance between two antipodal points\<close>

text \<open>
  The point at latitude \<open>-12\<close> and longitude \<open>-179\<close>, and the point opposite to it on the
  globe.
\<close>

definition point_a :: GeoPoint where
  "point_a = \<lparr> latitude = - 12, longitude = - 179 \<rparr>"

definition point_b :: GeoPoint where
  "point_b = \<lparr> latitude = 12, longitude = 1 \<rparr>"

text \<open>
  What the distance between these points asks of the library: the sine and cosine of
  \<open>12\<close> degrees in radians (\<open>0.20943951023931953\<close>), the sine of the double just below
  \<open>\<pi> / 2\<close>, and the exact values at zero that ECMAScript prescribes. The values are those
  returned by the routines of fdlibm, which V8 and SpiderMonkey derive theirs from, and by
  a correctly rounding library such as that of glibc:
  \<open>sin 0.20943951023931953 = 0.20791169081775931\<close>,
  \<open>cos 0.20943951023931953 = 0.9781476007338057\<close>, \<open>sin 1.5707963267948966 = 1\<close>.
\<close>

definition library_values :: "libm \<Rightarrow> bool" where
  "library_values m =
     (lib_sin m (Num (7545853602163669 / 36028797018963968)) =
        Num (7490808106342645 / 36028797018963968) \<and>
      lib_sin m (Num (884279719003555 / 562949953421312)) = Num 1 \<and>
      lib_cos m (Num (7545853602163669 / 36028797018963968)) =
        Num (68831018284033 / 70368744177664) \<and>
      lib_cos m (Num (- (7545853602163669 / 36028797018963968))) =
        Num (68831018284033 / 70368744177664) \<and>
      lib_sin m (Num 0) = Num 0 \<and>
      lib_atan2 m (Num 0) (Num 1) = Num 0)"

text \<open>The operations of the distance from \<open>point_a\<close> to \<open>point_b\<close>, one rounding each.\<close>

lemma rad_a_times: 
  "js_times (Num (- 12)) (Math_PI) =
   Num (- (2652839157010665 / 70368744177664))"
  unfolding js_times.simps Math_PI_def
  by (rule fl_eq [where e = 5 and n = "- 5305678314021330"]) (simp_all add: round_even_def)

lemma rad_a_divide: 
  "js_divide (Num (- (2652839157010665 / 70368744177664))) (Num 180) =
   Num (- (7545853602163669 / 36028797018963968))"
  unfolding js_divide_nonzero [OF nz_180]
  by (rule fl_eq [where e = "- 3" and n = "- 7545853602163669"]) (simp_all add: round_even_def)

lemma rad_b_times: "js_times (Num 12) (Math_PI) = Num (2652839157010665 / 70368744177664)"
  unfolding js_times.simps Math_PI_def
  by (rule fl_eq [where e = 5 and n = 5305678314021330]) (simp_all add: round_even_def)

lemma rad_b_divide: 
  "js_divide (Num (2652839157010665 / 70368744177664)) (Num 180) =
   Num (7545853602163669 / 36028797018963968)"
  unfolding js_divide_nonzero [OF nz_180]
  by (rule fl_eq [where e = "- 3" and n = 7545853602163669]) (simp_all add: round_even_def)

lemma delta_lat_minus: "js_minus (Num 12) (Num (- 12)) = Num 24"
  unfolding js_minus_def js_negate.simps js_plus.simps
  by (rule fl_eq [where e = 4 and n = 6755399441055744]) (simp_all add: round_even_def)

lemma delta_lat_times: "js_times (Num 24) (Math_PI) = Num (2652839157010665 / 35184372088832)"
  unfolding js_times.simps Math_PI_def
  by (rule fl_eq [where e = 6 and n = 5305678314021330]) (simp_all add: round_even_def)

lemma delta_lat_divide: 
  "js_divide (Num (2652839157010665 / 35184372088832)) (Num 180) =
   Num (7545853602163669 / 18014398509481984)"
  unfolding js_divide_nonzero [OF nz_180]
  by (rule fl_eq [where e = "- 2" and n = 7545853602163669]) (simp_all add: round_even_def)

lemma delta_lon_minus: "js_minus (Num 1) (Num (- 179)) = Num 180"
  unfolding js_minus_def js_negate.simps js_plus.simps
  by (rule fl_eq [where e = 7 and n = 6333186975989760]) (simp_all add: round_even_def)

lemma delta_lon_times: "js_times (Num 180) (Math_PI) = Num (4974073419394997 / 8796093022208)"
  unfolding js_times.simps Math_PI_def
  by (rule fl_eq [where e = 9 and n = 4974073419394997]) (simp_all add: round_even_def)

lemma delta_lon_divide: 
  "js_divide (Num (4974073419394997 / 8796093022208)) (Num 180) =
   Num (884279719003555 / 281474976710656)"
  unfolding js_divide_nonzero [OF nz_180]
  by (rule fl_eq [where e = 1 and n = 7074237752028440]) (simp_all add: round_even_def)

lemma half_delta_lat: 
  "js_divide (Num (7545853602163669 / 18014398509481984)) (Num 2) =
   Num (7545853602163669 / 36028797018963968)"
  unfolding js_divide_nonzero [OF nz_2]
  by (rule fl_eq [where e = "- 3" and n = 7545853602163669]) (simp_all add: round_even_def)

lemma half_delta_lon: 
  "js_divide (Num (884279719003555 / 281474976710656)) (Num 2) =
   Num (884279719003555 / 562949953421312)"
  unfolding js_divide_nonzero [OF nz_2]
  by (rule fl_eq [where e = 0 and n = 7074237752028440]) (simp_all add: round_even_def)

lemma sin_lat_squared: 
  "js_times (Num (7490808106342645 / 36028797018963968)) (Num (7490808106342645 / 36028797018963968)) =
   Num (6229706315924309 / 144115188075855872)"
  unfolding js_times.simps
  by (rule fl_eq [where e = "- 5" and n = 6229706315924309]) (simp_all add: round_even_def)

lemma cos_times_cos: 
  "js_times (Num (68831018284033 / 70368744177664)) (Num (68831018284033 / 70368744177664)) =
   Num (2154460652498931 / 2251799813685248)"
  unfolding js_times.simps
  by (rule fl_eq [where e = "- 1" and n = 8617842609995724]) (simp_all add: round_even_def)

lemma times_sin_lon: 
  "js_times (Num (2154460652498931 / 2251799813685248)) (Num 1) =
   Num (2154460652498931 / 2251799813685248)"
  unfolding js_times.simps
  by (rule fl_eq [where e = "- 1" and n = 8617842609995724]) (simp_all add: round_even_def)

lemma haversine_sum: 
  "js_plus (Num (6229706315924309 / 144115188075855872)) (Num (2154460652498931 / 2251799813685248)) =
   Num (4503599627370497 / 4503599627370496)"
  unfolding js_plus.simps
  by (rule fl_eq [where e = 0 and n = 4503599627370497]) (simp_all add: round_even_def)

lemma one_minus_haversine: 
  "js_minus (Num 1) (Num (4503599627370497 / 4503599627370496)) =
   Num (- (1 / 4503599627370496))"
  unfolding js_minus_def js_negate.simps js_plus.simps
  by (rule fl_eq [where e = "- 52" and n = "- 4503599627370496"]) (simp_all add: round_even_def)

lemma times_one: "js_times (Num (2154460652498931 / 2251799813685248)) (Num 1) =
    Num (2154460652498931 / 2251799813685248)"
  using times_sin_lon .

lemma toRadians_a: "toRadians (Num (- 12)) = Num (- (7545853602163669 / 36028797018963968))"
  unfolding toRadians_def rad_a_times rad_a_divide ..

lemma toRadians_b: "toRadians (Num 12) = Num (7545853602163669 / 36028797018963968)"
  unfolding toRadians_def rad_b_times rad_b_divide ..

lemma toRadians_24: "toRadians (Num 24) = Num (7545853602163669 / 18014398509481984)"
  unfolding toRadians_def delta_lat_times delta_lat_divide ..

lemma toRadians_180: "toRadians (Num 180) = Num (884279719003555 / 281474976710656)"
  unfolding toRadians_def delta_lon_times delta_lon_divide ..

text \<open>
  The haversine term of the two points is \<open>1 + 2\<^sup>-\<^sup>5\<^sup>2\<close>: the rounded square of the sine
  and the rounded square of the cosine add up to more than one.
\<close>

lemma haversine_a_b:
  assumes "library_values m"
  shows "js_plus
           (js_times (Math_sin m (js_divide (toRadians (Num 24)) (Num 2)))
              (Math_sin m (js_divide (toRadians (Num 24)) (Num 2))))
           (js_times
              (js_times
                 (js_times (Math_cos m (toRadians (Num (- 12))))
                    (Math_cos m (toRadians (Num 12))))
                 (Math_sin m (js_divide (toRadians (Num 180)) (Num 2))))
              (Math_sin m (js_divide (toRadians (Num 180)) (Num 2)))) =
         Num (4503599627370497 / 4503599627370496)"
proof -
  from assms have
    s: "Math_sin m (Num (7545853602163669 / 36028797018963968)) =
          Num (7490808106342645 / 36028797018963968)" and
    o: "Math_sin m (Num (884279719003555 / 562949953421312)) = Num 1" and
    c: "Math_cos m (Num (7545853602163669 / 36028797018963968)) =
          Num (68831018284033 / 70368744177664)" and
    c': "Math_cos m (Num (- (7545853602163669 / 36028797018963968))) =
          Num (68831018284033 / 70368744177664)"
    by (simp_all add: library_values_def Math_sin_def Math_cos_def)
  show ?thesis
    unfolding toRadians_a toRadians_b toRadians_24 toRadians_180 half_delta_lat
      half_delta_lon s o c c' sin_lat_squared cos_times_cos times_one haversine_sum ..
qed

lemma distance_a_b:
  assumes "library_values m"
  shows "distanceInMeters m point_a point_b = NaN"
proof -
  have sq: "Math_sqrt (js_minus (Num 1) (Num (4503599627370497 / 4503599627370496))) = NaN"
    unfolding one_minus_haversine by simp
  have d: "js_minus (Num 12) (Num (- 12)) = Num 24" "js_minus (Num 1) (Num (- 179)) = Num 180"
    by (rule delta_lat_minus, rule delta_lon_minus)
  show ?thesis
    unfolding distanceInMeters_def Let_def point_a_def point_b_def GeoPoint.select_convs d
      haversine_a_b [OF assms] sq
    by (simp add: Math_atan2_def EARTH_RADIUS_METERS_def)
qed

text \<open>The distance from \<open>point_a\<close> to itself, for comparison.\<close>

lemma distance_a_a:
  assumes "library_values m"
  shows "distanceInMeters m point_a point_a = Num 0"
proof -
  from assms have
    s: "Math_sin m (Num 0) = Num 0" and
    c: "Math_cos m (Num (- (7545853602163669 / 36028797018963968))) =
          Num (68831018284033 / 70368744177664)" and
    t: "Math_atan2 m (Num 0) (Num 1) = Num 0"
    by (simp_all add: library_values_def Math_sin_def Math_cos_def Math_atan2_def)
  have z1: "js_minus (Num (- 12)) (Num (- 12)) = Num 0"
    "js_minus (Num (- 179)) (Num (- 179)) = Num 0"
    by (simp_all add: js_minus_def fl_0)
  have z2: "toRadians (Num 0) = Num 0"
    by (simp add: toRadians_def Math_PI_def fl_0)
  have z3: "js_divide (Num 0) (Num 2) = Num 0"
    by (simp add: fl_0)
  have z4: "js_times (Num 0) (Num 0) = Num 0"
    by (simp add: fl_0)
  have z5: "js_times (Num (2154460652498931 / 2251799813685248)) (Num 0) = Num 0"
    by (simp add: fl_0)
  have z6: "js_plus (Num 0) (Num 0) = Num 0"
    by (simp add: fl_0)
  have z7: "Math_sqrt (Num 0) = Num 0" "Math_sqrt (Num 1) = Num 1"
    by (simp_all add: fl_0 fl_1)
  have z8: "js_minus (Num 1) (Num 0) = Num 1"
    by (simp add: js_minus_def fl_1)
  have z9: "js_times (Num 2) (Num 0) = Num 0" "js_times EARTH_RADIUS_METERS (Num 0) = Num 0"
    by (simp_all add: EARTH_RADIUS_METERS_def fl_0)
  have z10: "Math_round (Num 0) = Num 0"
    by simp
  show ?thesis
    unfolding distanceInMeters_def Let_def point_a_def GeoPoint.select_convs z1 z2 z3 s z4
      toRadians_a c cos_times_cos z5 z6 z7 z8 t z9 z10 ..
qed

text \<open>
  A library with the values above, which rounds the mathematical sine and cosine
  correctly elsewhere; it shows that the values are consistent.
\<close>

definition sample_libm :: libm where
  "sample_libm =
     \<lparr> lib_sin = (\<lambda>x.
         if x = Num (7545853602163669 / 36028797018963968)
         then Num (7490808106342645 / 36028797018963968)
         else if x = Num (884279719003555 / 562949953421312) then Num 1
         else (case x of Num r \<Rightarrow> fl (sin r) | _ \<Rightarrow> NaN)),
       lib_cos = (\<lambda>x.
         if x = Num (7545853602163669 / 36028797018963968) \<or>
            x = Num (- (7545853602163669 / 36028797018963968))
         then Num (68831018284033 / 70368744177664)
         else (case x of Num r \<Rightarrow> fl (cos r) | _ \<Rightarrow> NaN)),
       lib_atan2 = (\<lambda>y x.
         case (y, x) of
           (Num s, Num t) \<Rightarrow> (if 0 < t then fl (arctan (s / t)) else NaN)
         | _ \<Rightarrow> NaN) \<rparr>"

lemma sample_libm_values: "library_values sample_libm"
  by (simp add: library_values_def sample_libm_def fl_0)

text \<open>
  C2. The claim fails on the code at two antipodal points. From the point at latitude
  \<open>-12\<close>, longitude \<open>-179\<close> to the point at latitude \<open>12\<close>, longitude \<open>1\<close>, the rounded
  square of the sine and the rounded product of the cosines add up to
  \<open>1.0000000000000002\<close>; one minus this is negative, its square root is \<open>NaN\<close>, and so is
  the distance. \<open>NaN\<close> is not greater than or equal to zero and is not equal to itself,
  so the distance is neither non-negative nor symmetric there, while the distance from
  the first point to itself is zero. This holds for every library that returns the
  three values of the sine and the cosine stated in \<open>library_values\<close>.
\<close>

theorem distanceInMeters_antipodal_NaN:
  assumes "library_values m"
  shows "distanceInMeters m point_a point_b = NaN \<and>
         distanceInMeters m point_a point_a = Num 0 \<and>
         \<not> js_less (Num 0) (distanceInMeters m point_a point_b) \<and>
         distanceInMeters m point_a point_b \<noteq> Num 0"
  using distance_a_b [OF assms] distance_a_a [OF assms] by simp

theorem distanceInMeters_antipodal_NaN_sample:
  "distanceInMeters sample_libm point_a point_b = NaN"
  using distanceInMeters_antipodal_NaN [OF sample_libm_values] by simp

section \<open>Properties of the nearest-record search\<close>

text \<open>The point that \<open>findNearestShelter\<close> builds from a shelter.\<close>

definition position :: "CoolingShelter \<Rightarrow> GeoPoint" where
  "position shelter = \<lparr> latitude = latitude shelter, longitude = longitude shelter \<rparr>"

lemma js_less_NaN: "\<not> js_less d NaN"
  by (cases d) simp_all

text \<open>Once the best distance is \<open>NaN\<close>, no record replaces the best pair.\<close>

lemma nearest_loop_NaN: "nearest_loop m point (Some (s, NaN)) rest = Some (s, NaN)"
  by (induction rest) (simp_all add: Let_def js_less_NaN)

lemma nearest_first_NaN:
  assumes "distanceInMeters m point (position s) = NaN"
  shows "findNearestShelter m (s # rest) point = Some (s, NaN)"
  using assms
  by (simp add: findNearestShelter_def position_def Let_def nearest_loop_NaN)

text \<open>A shelter at a given place, with no other data.\<close>

definition shelter_at :: "jsstring \<Rightarrow> real \<Rightarrow> real \<Rightarrow> CoolingShelter" where
  "shelter_at i lat lon =
     \<lparr> latitude = lat, longitude = lon, shelter_id = i, municipalityCode = None,
       municipalityName = [], name = i, address = [], openings = [], specialNotes = None,
       capacity = None, manager = None, email = None, phone = None, url = None,
       designationDate = None, facilityTypeCategory = None, facilityOwnership = None \<rparr>"

text \<open>
  C1. The claim fails on the code where a distance is \<open>NaN\<close>, which is the defect of
  \<open>distanceInMeters\<close> stated under C2. Seen from the point at latitude \<open>-12\<close>, longitude
  \<open>-179\<close>, a first shelter at the opposite point has the distance \<open>NaN\<close> and a second
  shelter at the point itself has the distance zero; no distance compares as smaller
  than \<open>NaN\<close>, so the scan returns the first shelter with \<open>NaN\<close> and not the nearest one.
  More generally, a first record whose distance is \<open>NaN\<close> is returned whatever follows.
\<close>

theorem findNearestShelter_NaN_first:
  assumes "library_values m"
  shows "distanceInMeters m point_a (position (shelter_at (ascii ''far'') 12 1)) = NaN \<and>
         distanceInMeters m point_a (position (shelter_at (ascii ''near'') (- 12) (- 179))) =
           Num 0 \<and>
         findNearestShelter m
           [shelter_at (ascii ''far'') 12 1, shelter_at (ascii ''near'') (- 12) (- 179)]
           point_a =
           Some (shelter_at (ascii ''far'') 12 1, NaN) \<and>
         (\<forall>rest. findNearestShelter m (shelter_at (ascii ''far'') 12 1 # rest) point_a =
            Some (shelter_at (ascii ''far'') 12 1, NaN))"
proof -
  have pf: "position (shelter_at (ascii ''far'') 12 1) = point_b"
    by (simp add: position_def shelter_at_def point_b_def)
  have pn: "position (shelter_at (ascii ''near'') (- 12) (- 179)) = point_a"
    by (simp add: position_def shelter_at_def point_a_def)
  have f: "distanceInMeters m point_a (position (shelter_at (ascii ''far'') 12 1)) = NaN"
    unfolding pf by (rule distance_a_b [OF assms])
  have n: "distanceInMeters m point_a (position (shelter_at (ascii ''near'') (- 12) (- 179))) =
      Num 0"
    unfolding pn by (rule distance_a_a [OF assms])
  from f n nearest_first_NaN [OF f] show ?thesis by simp
qed

theorem findNearestShelter_NaN_first_sample:
  "findNearestShelter sample_libm
     [shelter_at (ascii ''far'') 12 1, shelter_at (ascii ''near'') (- 12) (- 179)] point_a =
     Some (shelter_at (ascii ''far'') 12 1, NaN)"
  using findNearestShelter_NaN_first [OF sample_libm_values] by simp

text \<open>
  What the scan does by design, when every distance is a finite number: it returns the
  record at the first index at which the distance is minimal.
\<close>

definition metres :: "libm \<Rightarrow> GeoPoint \<Rightarrow> CoolingShelter \<Rightarrow> real" where
  "metres m point shelter =
     (case distanceInMeters m point (position shelter) of Num d \<Rightarrow> d | _ \<Rightarrow> 0)"

definition measured :: "libm \<Rightarrow> GeoPoint \<Rightarrow> CoolingShelter \<Rightarrow> bool" where
  "measured m point shelter = (\<exists>d. distanceInMeters m point (position shelter) = Num d)"

lemma distance_metres:
  "measured m point shelter \<Longrightarrow>
   distanceInMeters m point (position shelter) = Num (metres m point shelter)"
  by (auto simp: measured_def metres_def)

definition nearest_step ::
  "libm \<Rightarrow> GeoPoint \<Rightarrow> (CoolingShelter \<times> number) option \<Rightarrow> CoolingShelter \<Rightarrow>
   (CoolingShelter \<times> number) option" where
  "nearest_step m point best shelter =
     (case best of
        None \<Rightarrow> Some (shelter, Num (metres m point shelter))
      | Some b \<Rightarrow>
          if js_less (Num (metres m point shelter)) (snd b)
          then Some (shelter, Num (metres m point shelter)) else best)"

lemma nearest_loop_Cons:
  assumes "measured m point shelter"
  shows "nearest_loop m point best (shelter # rest) =
         nearest_loop m point (nearest_step m point best shelter) rest"
  using distance_metres [OF assms]
  by (simp add: nearest_step_def position_def Let_def)

lemma nearest_loop_snoc:
  assumes "\<forall>x \<in> set front. measured m point x" and "measured m point shelter"
  shows "nearest_loop m point best (front @ [shelter]) =
         nearest_step m point (nearest_loop m point best front) shelter"
  using assms(1)
proof (induction front arbitrary: best)
  case Nil
  show ?case using nearest_loop_Cons [OF assms(2), of best "[]"] by simp
next
  case (Cons x front)
  from Cons.prems have x: "measured m point x" and f: "\<forall>x \<in> set front. measured m point x"
    by simp_all
  show ?case
    using Cons.IH [OF f, of "nearest_step m point best x"]
    by (simp only: append_Cons nearest_loop_Cons [OF x])
qed

definition first_minimum :: "libm \<Rightarrow> GeoPoint \<Rightarrow> CoolingShelter list \<Rightarrow> nat \<Rightarrow> bool" where
  "first_minimum m point xs i =
     (i < length xs \<and>
      (\<forall>j < length xs. metres m point (xs ! i) \<le> metres m point (xs ! j)) \<and>
      (\<forall>j < i. metres m point (xs ! i) < metres m point (xs ! j)))"

lemma nearest_loop_first_minimum:
  assumes "xs \<noteq> []" and "\<forall>x \<in> set xs. measured m point x"
  shows "\<exists>i. first_minimum m point xs i \<and>
           findNearestShelter m xs point = Some (xs ! i, Num (metres m point (xs ! i)))"
  using assms unfolding findNearestShelter_def
proof (induction xs rule: rev_induct)
  case Nil
  then show ?case by simp
next
  case (snoc s front)
  from snoc.prems(2) have ms: "measured m point s"
    and mf: "\<forall>x \<in> set front. measured m point x" by simp_all
  show ?case
  proof (cases "front = []")
    case True
    have "first_minimum m point [s] 0" by (simp add: first_minimum_def)
    moreover have "nearest_loop m point None [s] = Some (s, Num (metres m point s))"
      using nearest_loop_Cons [OF ms, of None "[]"] by (simp add: nearest_step_def)
    ultimately show ?thesis using True by auto
  next
    case False
    from snoc.IH [OF False mf] obtain i where
      fm: "first_minimum m point front i" and
      r: "nearest_loop m point None front =
            Some (front ! i, Num (metres m point (front ! i)))"
      by blast
    from fm have i: "i < length front" by (simp add: first_minimum_def)
    let ?n = "length front"
    have nth_old: "\<And>j. j < ?n \<Longrightarrow> (front @ [s]) ! j = front ! j"
      by (simp add: nth_append)
    have nth_new: "(front @ [s]) ! ?n = s" by simp
    have step: "nearest_loop m point None (front @ [s]) =
        nearest_step m point (Some (front ! i, Num (metres m point (front ! i)))) s"
      using nearest_loop_snoc [OF mf ms, of None] r by simp
    show ?thesis
    proof (cases "metres m point s < metres m point (front ! i)")
      case True
      have "first_minimum m point (front @ [s]) ?n"
        unfolding first_minimum_def
      proof (intro conjI allI impI)
        show "?n < length (front @ [s])" by simp
      next
        fix j assume "j < length (front @ [s])"
        then consider "j < ?n" | "j = ?n" by fastforce
        then show "metres m point ((front @ [s]) ! ?n) \<le> metres m point ((front @ [s]) ! j)"
        proof cases
          case 1
          with fm have "metres m point (front ! i) \<le> metres m point (front ! j)"
            by (simp add: first_minimum_def)
          with True 1 show ?thesis by (simp add: nth_old)
        next
          case 2
          then show ?thesis by simp
        qed
      next
        fix j assume j: "j < ?n"
        with fm have "metres m point (front ! i) \<le> metres m point (front ! j)"
          by (simp add: first_minimum_def)
        with True j
        show "metres m point ((front @ [s]) ! ?n) < metres m point ((front @ [s]) ! j)"
          by (simp add: nth_old)
      qed
      moreover have "nearest_loop m point None (front @ [s]) =
          Some (s, Num (metres m point s))"
        using True by (simp add: step nearest_step_def)
      ultimately show ?thesis using nth_new by metis
    next
      case False
      have "first_minimum m point (front @ [s]) i"
        unfolding first_minimum_def
      proof (intro conjI allI impI)
        show "i < length (front @ [s])" using i by simp
      next
        fix j assume "j < length (front @ [s])"
        then consider "j < ?n" | "j = ?n" by fastforce
        then show "metres m point ((front @ [s]) ! i) \<le> metres m point ((front @ [s]) ! j)"
        proof cases
          case 1
          with fm i show ?thesis by (simp add: first_minimum_def nth_old)
        next
          case 2
          with False i show ?thesis by (simp add: nth_old)
        qed
      next
        fix j assume j: "j < i"
        with fm i
        show "metres m point ((front @ [s]) ! i) < metres m point ((front @ [s]) ! j)"
          by (simp add: first_minimum_def nth_old)
      qed
      moreover have "nearest_loop m point None (front @ [s]) =
          Some (front ! i, Num (metres m point (front ! i)))"
        using False by (simp add: step nearest_step_def)
      ultimately show ?thesis using nth_old [OF i] by metis
    qed
  qed
qed

section \<open>Properties of duration estimation and formatting\<close>

lemma digits_of_digit: "n < 10 \<Longrightarrow> digits_of n = [0x30 + n]"
  by (subst digits_of.simps) simp

text \<open>The divisions of the examples, one rounding each.\<close>

lemma estimate_1200: 
  "js_divide (Num 1200) (Num (5404319552844595 / 4503599627370496)) =
   Num 1000"
  unfolding js_divide_nonzero [OF nz_speed]
  by (rule fl_eq [where e = 9 and n = 8796093022208000]) (simp_all add: round_even_def)

lemma minutes_1000: "js_divide (Num 1000) (Num 60) = Num (4691249611844267 / 281474976710656)"
  unfolding js_divide_nonzero [OF nz_60]
  by (rule fl_eq [where e = 4 and n = 4691249611844267]) (simp_all add: round_even_def)

lemma minutes_half: 
  "js_divide (Num (1 / 2)) (Num 60) =
   Num (4803839602528529 / 576460752303423488)"
  unfolding js_divide_nonzero [OF nz_60]
  by (rule fl_eq [where e = "- 7" and n = 4803839602528529]) (simp_all add: round_even_def)

lemma estimate_walk: "estimateDurationSeconds (Num 1200) Walk = Num 1000"
  unfolding estimateDurationSeconds_def Let_def using estimate_1200 by simp

lemma round_1000:
  "Math_round (js_divide (Num 1000) (Num 60)) = Num 17"
proof -
  have "\<lfloor>(4691249611844267 / 281474976710656 :: real) + 1 / 2\<rfloor> = 17"
    by (rule floor_unique) simp_all
  then show ?thesis unfolding minutes_1000 by simp
qed

lemma round_half:
  "Math_round (js_divide (Num (1 / 2)) (Num 60)) = Num 0"
proof -
  have "\<lfloor>(4803839602528529 / 576460752303423488 :: real) + 1 / 2\<rfloor> = 0"
    by (rule floor_unique) simp_all
  then show ?thesis unfolding minutes_half by simp
qed

lemma round_zero: "Math_round (js_divide (Num 0) (Num 60)) = Num 0"
  by (simp add: fl_0)

text \<open>
  C9. The claim fails on the code at zero. Zero seconds is a defined value that is not
  \<open>NaN\<close>, and it rounds to zero minutes, which is below 60; the claim has it rendered as
  whole minutes, as half a second is (\<open>toString 0\<close> followed by the sign of the minute).
  The test \<open>!seconds\<close> sends it to the placeholder \<open>-\<close> instead. The other statements of
  the claim hold: 1200 m on foot take 1000 s, which are rendered as 17 minutes, and an
  absent value and \<open>NaN\<close> give the placeholder. This holds however numbers are printed.
\<close>

theorem formatDuration_zero:
  "formatDuration toString (Some (Num 0)) = ascii ''-'' \<and>
   Math_round (js_divide (Num 0) (Num 60)) = Num 0 \<and> js_less (Num 0) (Num 60) \<and>
   formatDuration toString (Some (Num (1 / 2))) = toString (Num 0) @ [0x5206] \<and>
   estimateDurationSeconds (Num 1200) Walk = Num 1000 \<and>
   formatDuration toString (Some (estimateDurationSeconds (Num 1200) Walk)) =
     toString (Num 17) @ [0x5206] \<and>
   formatDuration toString None = ascii ''-'' \<and>
   formatDuration toString (Some NaN) = ascii ''-''"
proof -
  have z: "formatDuration toString (Some (Num 0)) = ascii ''-''"
    by (simp add: formatDuration_def falsy_def)
  have h: "formatDuration toString (Some (Num (1 / 2))) = toString (Num 0) @ [0x5206]"
    unfolding formatDuration_def Let_def option.case round_half
    by (simp add: falsy_def isNaN_def)
  have e: "formatDuration toString (Some (estimateDurationSeconds (Num 1200) Walk)) =
      toString (Num 17) @ [0x5206]"
    unfolding estimate_walk formatDuration_def Let_def option.case round_1000
    by (simp add: falsy_def isNaN_def)
  have p: "formatDuration toString None = ascii ''-''"
    "formatDuration toString (Some NaN) = ascii ''-''"
    by (simp_all add: formatDuration_def falsy_def)
  from z h e p round_zero estimate_walk show ?thesis by simp
qed

section \<open>Properties of the source-candidate loop\<close>

text \<open>
  \<open>all_fail e w sources failures w'\<close>: starting in the world \<open>w\<close>, every source of the
  list that is not blank is requested in order and fails; \<open>failures\<close> lists each such
  source with the message of its failure, and \<open>w'\<close> is the world after the last request.
\<close>

inductive all_fail ::
  "('w, 'b) env \<Rightarrow> 'w \<Rightarrow> jsstring list \<Rightarrow> (jsstring \<times> jsstring) list \<Rightarrow> 'w \<Rightarrow> bool" where
  none: "all_fail e w [] [] w"
| blank: "trim source = [] \<Longrightarrow> all_fail e w rest failures w' \<Longrightarrow>
     all_fail e w (source # rest) failures w'"
| failed: "trim source \<noteq> [] \<Longrightarrow> attempt e w (trim source) = (Inl message, w1) \<Longrightarrow>
     all_fail e w1 rest failures w' \<Longrightarrow>
     all_fail e w (source # rest) ((source, message) # failures) w'"

text \<open>The entry of \<open>errors\<close> for a failure.\<close>

definition error_line :: "jsstring \<times> jsstring \<Rightarrow> jsstring" where
  "error_line f = fst f @ ascii '': '' @ snd f"

lemma fetch_loop_all_fail:
  assumes "all_fail e w front failures w1"
  shows "fetch_loop e w errors (front @ rest) =
         fetch_loop e w1 (errors @ map error_line failures) rest"
  using assms
proof (induction arbitrary: errors rule: all_fail.induct)
  case (none e w)
  show ?case by simp
next
  case (blank source e w rest' failures w')
  then show ?case by simp
next
  case (failed source e w message w1 rest' failures w')
  from failed.hyps(1,2) failed.IH [of "errors @ [source @ ascii '': '' @ message]"]
  show ?case by (simp add: error_line_def)
qed

lemma all_fail_sources:
  assumes "all_fail e w sources failures w'"
  shows "map fst failures = filter (\<lambda>s. trim s \<noteq> []) sources"
  using assms by (induction rule: all_fail.induct) simp_all

lemma fetch_first_success:
  assumes "all_fail e w front failures w1" and "trim s \<noteq> []"
    and "attempt e w1 (trim s) = (Inr found, w2)"
  shows "fetchSheltersFromCandidates e w (front @ s # rest) =
         (Inr \<lparr> shelters = found, sourceUrl = trim s \<rparr>, w2)"
  unfolding fetchSheltersFromCandidates_def fetch_loop_all_fail [OF assms(1)]
  using assms(2,3) by simp

lemma fetch_all_fail:
  assumes "all_fail e w sources failures w'"
  shows "fetchSheltersFromCandidates e w sources =
         (Inl (join_lines (map error_line failures)), w')"
  unfolding fetchSheltersFromCandidates_def
  using fetch_loop_all_fail [OF assms, of "[]" "[]"] by simp

text \<open>
  \<open>first_succeeds e w sources\<close>: some source succeeds after all the sources before it
  have failed.
\<close>

definition first_succeeds :: "('w, 'b) env \<Rightarrow> 'w \<Rightarrow> jsstring list \<Rightarrow> bool" where
  "first_succeeds e w sources =
     (\<exists>front s rest failures w1 found w2.
        sources = front @ s # rest \<and> all_fail e w front failures w1 \<and> trim s \<noteq> [] \<and>
        attempt e w1 (trim s) = (Inr found, w2))"

definition all_failing :: "('w, 'b) env \<Rightarrow> 'w \<Rightarrow> jsstring list \<Rightarrow> bool" where
  "all_failing e w sources = (\<exists>failures w'. all_fail e w sources failures w')"

lemma first_succeedsI:
  assumes "sources = front @ s # rest" and "all_fail e w front failures w1"
    and "trim s \<noteq> []" and "attempt e w1 (trim s) = (Inr found, w2)"
  shows "first_succeeds e w sources"
  unfolding first_succeeds_def
  apply (rule exI [of _ front], rule exI [of _ s], rule exI [of _ rest])
  apply (rule exI [of _ failures], rule exI [of _ w1], rule exI [of _ found])
  apply (rule exI [of _ w2])
  using assms by simp

lemma first_succeedsE:
  assumes "first_succeeds e w sources"
  obtains front s rest failures w1 found w2 where
    "sources = front @ s # rest" and "all_fail e w front failures w1"
    and "trim s \<noteq> []" and "attempt e w1 (trim s) = (Inr found, w2)"
  using assms unfolding first_succeeds_def by (elim exE conjE)

lemma all_failingI: "all_fail e w sources failures w' \<Longrightarrow> all_failing e w sources"
  unfolding all_failing_def by (intro exI)

lemma all_failingE:
  assumes "all_failing e w sources"
  obtains failures w' where "all_fail e w sources failures w'"
  using assms unfolding all_failing_def by (elim exE)

text \<open>Every run is of one of the two kinds.\<close>

lemma all_fail_or_success: "all_failing e w sources \<or> first_succeeds e w sources"
proof (induction sources arbitrary: w)
  case Nil
  show ?case using all_failingI [OF all_fail.none] by (rule disjI1)
next
  case (Cons x xs)
  show ?case
  proof (cases "trim x = []")
    case True
    from Cons [of w] show ?thesis
    proof
      assume "all_failing e w xs"
      then obtain failures w' where "all_fail e w xs failures w'" by (rule all_failingE)
      from all_failingI [OF all_fail.blank [OF True this]] show ?thesis by (rule disjI1)
    next
      assume "first_succeeds e w xs"
      then obtain front s rest failures w1 found w2 where
        h: "xs = front @ s # rest" "all_fail e w front failures w1" "trim s \<noteq> []"
        "attempt e w1 (trim s) = (Inr found, w2)" by (rule first_succeedsE)
      from h(1) have 1: "x # xs = (x # front) @ s # rest" by simp
      from first_succeedsI [OF 1 all_fail.blank [OF True h(2)] h(3) h(4)]
      show ?thesis by (rule disjI2)
    qed
  next
    case False
    obtain res w1 where a: "attempt e w (trim x) = (res, w1)" by (cases "attempt e w (trim x)")
    show ?thesis
    proof (cases res)
      case (Inr found)
      have 1: "x # xs = [] @ x # xs" by simp
      from a Inr have 2: "attempt e w (trim x) = (Inr found, w1)" by simp
      from first_succeedsI [OF 1 all_fail.none False 2] show ?thesis by (rule disjI2)
    next
      case (Inl message)
      with a have a': "attempt e w (trim x) = (Inl message, w1)" by simp
      from Cons [of w1] show ?thesis
      proof
        assume "all_failing e w1 xs"
        then obtain failures w' where "all_fail e w1 xs failures w'" by (rule all_failingE)
        from all_failingI [OF all_fail.failed [OF False a' this]] show ?thesis
          by (rule disjI1)
      next
        assume "first_succeeds e w1 xs"
        then obtain front s rest failures w1' found w2 where
          h: "xs = front @ s # rest" "all_fail e w1 front failures w1'" "trim s \<noteq> []"
          "attempt e w1' (trim s) = (Inr found, w2)" by (rule first_succeedsE)
        from h(1) have 1: "x # xs = (x # front) @ s # rest" by simp
        from first_succeedsI [OF 1 all_fail.failed [OF False a' h(2)] h(3) h(4)]
        show ?thesis by (rule disjI2)
      qed
    qed
  qed
qed

lemma attempt_nonempty: "attempt e w u = (Inr found, w') \<Longrightarrow> found \<noteq> []"
  unfolding attempt_def
  by (cases "fetch e w u"; cases "fst (fetch e w u)")
     (auto simp: Let_def split: sum.splits if_splits)

text \<open>
  C8. The loop tries the sources in order; a source succeeds when its response is
  \<open>ok\<close>, decodes, and parses to at least one record. When the sources before some
  source all fail (or are blank and skipped) and that source succeeds, the result is the content of that
  source with its trimmed address, whatever follows it. When every source fails, the
  result is the aggregate error whose message joins one line, source and reason, for each
  source requested, in order. No other outcome exists: a returned result comes from the
  first source that succeeds, and the aggregate error arises only when every source has
  been requested and has failed.
\<close>

theorem fetch_first_success_or_all_failures:
  "(all_fail e w front failures w1 \<and> trim s \<noteq> [] \<and>
    attempt e w1 (trim s) = (Inr found, w2) \<longrightarrow>
      fetchSheltersFromCandidates e w (front @ s # rest) =
        (Inr \<lparr> shelters = found, sourceUrl = trim s \<rparr>, w2) \<and> found \<noteq> []) \<and>
   (all_fail e w sources failures w' \<longrightarrow>
      fetchSheltersFromCandidates e w sources =
        (Inl (join_lines (map error_line failures)), w') \<and>
      map fst failures = filter (\<lambda>s. trim s \<noteq> []) sources) \<and>
   (fetchSheltersFromCandidates e w sources = (Inr r, w') \<longrightarrow>
      (\<exists>front s rest failures w1.
         sources = front @ s # rest \<and> all_fail e w front failures w1 \<and> trim s \<noteq> [] \<and>
         attempt e w1 (trim s) = (Inr (shelters r), w') \<and> sourceUrl r = trim s)) \<and>
   (fetchSheltersFromCandidates e w sources = (Inl message, w') \<longrightarrow>
      (\<exists>failures. all_fail e w sources failures w' \<and>
         message = join_lines (map error_line failures) \<and>
         map fst failures = filter (\<lambda>s. trim s \<noteq> []) sources))"
proof -
  have a: "fetchSheltersFromCandidates e w (front @ s # rest) =
        (Inr \<lparr> shelters = found, sourceUrl = trim s \<rparr>, w2) \<and> found \<noteq> []"
    if h: "all_fail e w front failures w1 \<and> trim s \<noteq> [] \<and>
        attempt e w1 (trim s) = (Inr found, w2)"
  proof -
    from h have 1: "all_fail e w front failures w1" and 2: "trim s \<noteq> []"
      and 3: "attempt e w1 (trim s) = (Inr found, w2)" by simp_all
    from fetch_first_success [OF 1 2 3] attempt_nonempty [OF 3] show ?thesis by simp
  qed
  have b: "fetchSheltersFromCandidates e w sources =
        (Inl (join_lines (map error_line failures)), w') \<and>
      map fst failures = filter (\<lambda>s. trim s \<noteq> []) sources"
    if h: "all_fail e w sources failures w'"
    using fetch_all_fail [OF h] all_fail_sources [OF h] by simp
  have c: "\<exists>front s rest failures w1.
         sources = front @ s # rest \<and> all_fail e w front failures w1 \<and> trim s \<noteq> [] \<and>
         attempt e w1 (trim s) = (Inr (shelters r), w') \<and> sourceUrl r = trim s"
    if r: "fetchSheltersFromCandidates e w sources = (Inr r, w')"
  proof -
    from all_fail_or_success [of e w sources] show ?thesis
    proof
      assume "all_failing e w sources"
      then obtain fs w'' where "all_fail e w sources fs w''" by (rule all_failingE)
      from fetch_all_fail [OF this] r show ?thesis by simp
    next
      assume "first_succeeds e w sources"
      then obtain front s rest fs w1 found w2 where
        h: "sources = front @ s # rest" "all_fail e w front fs w1" "trim s \<noteq> []"
        "attempt e w1 (trim s) = (Inr found, w2)" by (rule first_succeedsE)
      from fetch_first_success [OF h(2,3,4), of rest] r h(1)
      have "r = \<lparr> shelters = found, sourceUrl = trim s \<rparr>" and "w' = w2" by simp_all
      with h(4) have 4: "attempt e w1 (trim s) = (Inr (shelters r), w')"
        and 5: "sourceUrl r = trim s" by simp_all
      show ?thesis
        apply (rule exI [of _ front], rule exI [of _ s], rule exI [of _ rest])
        apply (rule exI [of _ fs], rule exI [of _ w1])
        using h(1,2,3) 4 5 by simp
    qed
  qed
  have d: "\<exists>failures. all_fail e w sources failures w' \<and>
         message = join_lines (map error_line failures) \<and>
         map fst failures = filter (\<lambda>s. trim s \<noteq> []) sources"
    if m: "fetchSheltersFromCandidates e w sources = (Inl message, w')"
  proof -
    from all_fail_or_success [of e w sources] show ?thesis
    proof
      assume "all_failing e w sources"
      then obtain fs w'' where f: "all_fail e w sources fs w''" by (rule all_failingE)
      from fetch_all_fail [OF f] m have "message = join_lines (map error_line fs)" "w'' = w'"
        by simp_all
      with f all_fail_sources [OF f] show ?thesis by (intro exI [of _ fs]) simp
    next
      assume "first_succeeds e w sources"
      then obtain front s rest fs w1 found w2 where
        h: "sources = front @ s # rest" "all_fail e w front fs w1" "trim s \<noteq> []"
        "attempt e w1 (trim s) = (Inr found, w2)" by (rule first_succeedsE)
      from fetch_first_success [OF h(2,3,4), of rest] m h(1) show ?thesis by simp
    qed
  qed
  from a have a': "all_fail e w front failures w1 \<and> trim s \<noteq> [] \<and>
    attempt e w1 (trim s) = (Inr found, w2) \<longrightarrow>
      fetchSheltersFromCandidates e w (front @ s # rest) =
        (Inr \<lparr> shelters = found, sourceUrl = trim s \<rparr>, w2) \<and> found \<noteq> []"
    by (rule impI)
  from b have b': "all_fail e w sources failures w' \<longrightarrow>
      fetchSheltersFromCandidates e w sources =
        (Inl (join_lines (map error_line failures)), w') \<and>
      map fst failures = filter (\<lambda>s. trim s \<noteq> []) sources"
    by (rule impI)
  from c have c': "fetchSheltersFromCandidates e w sources = (Inr r, w') \<longrightarrow>
      (\<exists>front s rest failures w1.
         sources = front @ s # rest \<and> all_fail e w front failures w1 \<and> trim s \<noteq> [] \<and>
         attempt e w1 (trim s) = (Inr (shelters r), w') \<and> sourceUrl r = trim s)"
    by (rule impI)
  from d have d': "fetchSheltersFromCandidates e w sources = (Inl message, w') \<longrightarrow>
      (\<exists>failures. all_fail e w sources failures w' \<and>
         message = join_lines (map error_line failures) \<and>
         map fst failures = filter (\<lambda>s. trim s \<noteq> []) sources)"
    by (rule impI)
  show ?thesis by (rule conjI [OF a' conjI [OF b' conjI [OF c' d']]])
qed

text \<open>
  A network for the statement below: the world counts the requests; the address \<open>a\<close> is
  unreachable, \<open>x\<close> answers 404, every other address answers with a body that the parser
  reads as the single complete row \<open>row_1\<close>.
\<close>

definition env_1 :: "(nat, jsstring) env" where
  "env_1 =
     \<lparr> fetch = (\<lambda>w u.
         (if u = ascii ''a'' then Threw (ascii ''down'')
          else if u = ascii ''x'' then Response False 404 (ascii ''Not Found'') []
          else Response True 200 (ascii ''OK'') (ascii ''csv''), Suc w)),
       decodeCsvResponse = Inr,
       papa_parse = (\<lambda>csvText. [Some row_1]) \<rparr>"

lemma trim_examples:
  "trim (ascii '' a'') = ascii ''a''" "trim (ascii '' '') = []"
  "trim (ascii ''x'') = ascii ''x''" "trim (ascii ''b'') = ascii ''b''"
  by (simp_all add: trim_def ascii_def is_space_def)

lemma digits_of_404: "digits_of 404 = ascii ''404''"
  by (subst digits_of.simps, simp, subst digits_of.simps) (simp add: digits_of_digit ascii_def)

lemma parse_row_1: "parseCoolingShelterCsv [Some row_1] \<noteq> []"
proof -
  have "mandatory_present (Some row_1)"
    by (simp add: mandatory_present_def row_1_fields)
  then have "length (parseCoolingShelterCsv [Some row_1]) = length [Some row_1]"
    by (intro parse_all_present) simp
  then show ?thesis by auto
qed

lemma env_1_attempts:
  "attempt env_1 w (ascii ''a'') = (Inl (ascii ''down''), Suc w)"
  "attempt env_1 w (ascii ''x'') = (Inl (ascii ''HTTP 404 Not Found''), Suc w)"
  "attempt env_1 w (ascii ''b'') = (Inr (parseCoolingShelterCsv [Some row_1]), Suc w)"
  using parse_row_1
  by (simp_all add: attempt_def env_1_def digits_of_404) (simp_all add: ascii_def)

lemma env_1_failures:
  "all_fail env_1 0 [ascii '' a'', ascii '' '', ascii ''x'']
     [(ascii '' a'', ascii ''down''), (ascii ''x'', ascii ''HTTP 404 Not Found'')] 2"
proof -
  have 3: "all_fail env_1 2 [] [] 2" by (rule all_fail.none)
  have x: "trim (ascii ''x'') \<noteq> []" unfolding trim_examples by (simp add: ascii_def)
  have ax: "attempt env_1 (Suc 0) (trim (ascii ''x'')) =
      (Inl (ascii ''HTTP 404 Not Found''), 2)"
    by (simp add: trim_examples env_1_attempts)
  have 2: "all_fail env_1 (Suc 0) [ascii ''x''] [(ascii ''x'', ascii ''HTTP 404 Not Found'')] 2"
    by (rule all_fail.failed [OF x ax 3])
  have 1: "all_fail env_1 (Suc 0) [ascii '' '', ascii ''x'']
      [(ascii ''x'', ascii ''HTTP 404 Not Found'')] 2"
    by (rule all_fail.blank [OF trim_examples(2) 2])
  have a: "trim (ascii '' a'') \<noteq> []" unfolding trim_examples by (simp add: ascii_def)
  have aa: "attempt env_1 0 (trim (ascii '' a'')) = (Inl (ascii ''down''), Suc 0)"
    by (simp add: trim_examples env_1_attempts)
  show ?thesis by (rule all_fail.failed [OF a aa 1])
qed

theorem fetch_first_success_or_all_failures_witness:
  "all_fail env_1 0 [ascii '' a'', ascii '' '', ascii ''x'']
     [(ascii '' a'', ascii ''down''), (ascii ''x'', ascii ''HTTP 404 Not Found'')] 2 \<and>
   fetchSheltersFromCandidates env_1 0
     [ascii '' a'', ascii '' '', ascii ''x'', ascii ''b'', ascii ''a''] =
     (Inr \<lparr> shelters = parseCoolingShelterCsv [Some row_1], sourceUrl = ascii ''b'' \<rparr>, 3) \<and>
   fetchSheltersFromCandidates env_1 0 [ascii '' a'', ascii '' '', ascii ''x''] =
     (Inl (ascii '' a: down'' @ [0x0A] @ ascii ''x: HTTP 404 Not Found''), 2)"
proof -
  note f = env_1_failures
  have b: "trim (ascii ''b'') \<noteq> []" unfolding trim_examples by (simp add: ascii_def)
  have ab: "attempt env_1 2 (trim (ascii ''b'')) =
      (Inr (parseCoolingShelterCsv [Some row_1]), 3)"
    using env_1_attempts(3) [of 2] by (simp add: trim_examples)
  note t = fetch_first_success_or_all_failures
    [of env_1 0 "[ascii '' a'', ascii '' '', ascii ''x'']"
      "[(ascii '' a'', ascii ''down''), (ascii ''x'', ascii ''HTTP 404 Not Found'')]" 2
      "ascii ''b''" "parseCoolingShelterCsv [Some row_1]" 3 "[ascii ''a'']"
      "[ascii '' a'', ascii '' '', ascii ''x'']" 2]
  from t f b ab have s: "fetchSheltersFromCandidates env_1 0
      ([ascii '' a'', ascii '' '', ascii ''x''] @ ascii ''b'' # [ascii ''a'']) =
      (Inr \<lparr> shelters = parseCoolingShelterCsv [Some row_1],
             sourceUrl = trim (ascii ''b'') \<rparr>, 3)"
    by blast
  from t f have e: "fetchSheltersFromCandidates env_1 0 [ascii '' a'', ascii '' '', ascii ''x''] =
      (Inl (join_lines (map error_line
         [(ascii '' a'', ascii ''down''), (ascii ''x'', ascii ''HTTP 404 Not Found'')])), 2)"
    by blast
  from s have s': "fetchSheltersFromCandidates env_1 0
     [ascii '' a'', ascii '' '', ascii ''x'', ascii ''b'', ascii ''a''] =
     (Inr \<lparr> shelters = parseCoolingShelterCsv [Some row_1], sourceUrl = ascii ''b'' \<rparr>, 3)"
    by (simp add: trim_examples)
  from e have e': "fetchSheltersFromCandidates env_1 0 [ascii '' a'', ascii '' '', ascii ''x''] =
     (Inl (ascii '' a: down'' @ [0x0A] @ ascii ''x: HTTP 404 Not Found''), 2)"
    by (simp add: error_line_def ascii_def)
  from f s' e' show ?thesis by (intro conjI)
qed

end
